theory Spec2Isabelle
  imports Main "HOL-Library.AList" "HOL-Library.Multiset"
begin

section \<open>JavaScript values of the extension host\<close>

text \<open>
  The development embeds \<^verbatim>\<open>src/vs/workbench/node/pluginHostProcess.ts\<close>, which holds
  the host process' entry script (\<^verbatim>\<open>connectToRenderer\<close> and the top-level join) and the
  class \<^verbatim>\<open>PluginHostMain\<close>.  A thrown value or a rejection reason is kept as the string
  that \<^verbatim>\<open>toString()\<close> gives for it; thrown values are taken to be truthy (they are
  \<^verbatim>\<open>Error\<close> objects).
\<close>

type_synonym jserror = string

text \<open>
  A JavaScript value used as a condition: \<^verbatim>\<open>undefined\<close> and the empty string are falsy.
\<close>

definition truthy :: "string option \<Rightarrow> bool" where
  "truthy v = (case v of None \<Rightarrow> False | Some s \<Rightarrow> s \<noteq> [])"

subsection \<open>Plain objects used as dictionaries\<close>

text \<open>
  \<^verbatim>\<open>resultingPluginsMap\<close> and \<^verbatim>\<open>desiredFilesMap\<close> are object literals \<^verbatim>\<open>{}\<close>
  indexed by strings.  The own enumerable properties of such an object are a list in
  creation order.  Three things differ from a mathematical dictionary, and each is part
  of the model:
  \<^item> \<^verbatim>\<open>o['__proto__'] = v\<close> calls the setter inherited from \<^verbatim>\<open>Object.prototype\<close>: it
    creates no own property; for a value \<^verbatim>\<open>v\<close> that is not an object, such as the
    \<^verbatim>\<open>true\<close> stored in \<^verbatim>\<open>desiredFilesMap\<close>, it does nothing, and for an object it
    replaces the prototype of \<^verbatim>\<open>o\<close>;
  \<^item> \<^verbatim>\<open>o.hasOwnProperty(k)\<close> looks the method up on \<^verbatim>\<open>o\<close> and then on its
    prototype, so a property of that name found there before \<^verbatim>\<open>Object.prototype\<close> is
    reached makes the call a \<^verbatim>\<open>TypeError\<close>;
  \<^item> \<^verbatim>\<open>Object.keys\<close> lists the keys that are array indices first, in ascending numeric
    order, and then the other keys in creation order.
  \<open>obj_set\<close> is the assignment of a value that is not an object; the assignment of a
  descriptor to \<^verbatim>\<open>resultingPluginsMap\<close> is \<open>plugins_set\<close> below.
\<close>

type_synonym 'v jsobject = "(string \<times> 'v) list"

definition obj_set :: "string \<Rightarrow> 'v \<Rightarrow> 'v jsobject \<Rightarrow> 'v jsobject" where
  "obj_set k v ob = (if k = ''__proto__'' then ob else AList.update k v ob)"

definition obj_get :: "'v jsobject \<Rightarrow> string \<Rightarrow> 'v option" where
  "obj_get ob k = map_of ob k"

definition is_digit :: "char \<Rightarrow> bool" where
  "is_digit c = (c \<in> set ''0123456789'')"

definition decimal_value :: "string \<Rightarrow> nat" where
  "decimal_value s = foldl (\<lambda>n c. 10 * n + (of_char c - 48)) 0 s"

text \<open>
  An array index is the canonical decimal form of an integer below \<open>2\<^sup>3\<^sup>2 - 1\<close>.
\<close>

definition is_array_index :: "string \<Rightarrow> bool" where
  "is_array_index s =
     (s \<noteq> [] \<and> list_all is_digit s \<and> (s = ''0'' \<or> hd s \<noteq> CHR ''0'')
      \<and> decimal_value s < 4294967295)"

definition Object_keys :: "'v jsobject \<Rightarrow> string list" where
  "Object_keys ob =
     (let ks = map fst ob
      in sort_key decimal_value (filter is_array_index ks)
         @ filter (\<lambda>k. \<not> is_array_index k) ks)"

subsection \<open>Descriptors and diagnostics\<close>

text \<open>
  \<^verbatim>\<open>IPluginDescription\<close> and \<^verbatim>\<open>IMessage\<close> are declared in
  \<^verbatim>\<open>vs/platform/plugins/common/plugins\<close>, outside the files at hand; the records hold
  the members that the host reads, and \<open>manifest\<close> stands for the remaining manifest
  entries.  \<^verbatim>\<open>activationEvents\<close> may be absent.
\<close>

record IPluginDescription =
  plugin_id :: string
  extensionFolderPath :: string
  activationEvents :: "string list option"
  manifest :: "(string \<times> string) list"

datatype Severity = Info | Warning | Error

record IMessage =
  msg_type :: Severity
  message :: string
  source :: string

text \<open>
  Modelled from the spec: \<^verbatim>\<open>PluginsMessageCollector\<close> (its class is outside the files at
  hand) collects each reported diagnostic, in order, with its severity and source.
\<close>

type_synonym collector = "IMessage list"

definition collector_msg :: "Severity \<Rightarrow> string \<Rightarrow> string \<Rightarrow> collector \<Rightarrow> collector" where
  "collector_msg sev src text c = c @ [\<lparr>msg_type = sev, message = text, source = src\<rparr>]"

definition collector_error :: "string \<Rightarrow> string \<Rightarrow> collector \<Rightarrow> collector" where
  "collector_error = collector_msg Error"

definition collector_warn :: "string \<Rightarrow> string \<Rightarrow> collector \<Rightarrow> collector" where
  "collector_warn = collector_msg Warning"

definition collector_info :: "string \<Rightarrow> string \<Rightarrow> collector \<Rightarrow> collector" where
  "collector_info = collector_msg Info"

definition getMessages :: "collector \<Rightarrow> IMessage list" where
  "getMessages c = c"

section \<open>Merging the scanned descriptors\<close>

text \<open>
  The callback that \<^verbatim>\<open>PluginHostMain.scanPlugins\<close> runs on the joined scan results.
  Each \<^verbatim>\<open>forEach\<close> is a recursion over the scanned list; the collector is the object
  that the callback mutates, so it is returned also when the callback throws.
\<close>

definition overwriting :: "IPluginDescription \<Rightarrow> IPluginDescription \<Rightarrow> string" where
  "overwriting old new =
     ''Overwriting extension '' @ extensionFolderPath old @ '' with '' @ extensionFolderPath new"

definition loading_development :: "IPluginDescription \<Rightarrow> string" where
  "loading_development p = ''Loading development extension at '' @ extensionFolderPath p"

text \<open>
  \<^verbatim>\<open>resultingPluginsMap\<close> holds descriptors, which are objects: it is its own
  properties and the descriptor that has replaced its prototype, if one has.  The
  properties of a descriptor are its typed fields and the entries of its manifest; all
  of them hold data, none a function.
\<close>

record plugins_object =
  own_properties :: "IPluginDescription jsobject"
  prototype :: "IPluginDescription option"

definition member_names :: "IPluginDescription \<Rightarrow> string list" where
  "member_names p =
     [''id'', ''extensionFolderPath'']
       @ (case activationEvents p of None \<Rightarrow> [] | Some evs \<Rightarrow> [''activationEvents''])
       @ map fst (manifest p)"

definition has_member :: "IPluginDescription \<Rightarrow> string \<Rightarrow> bool" where
  "has_member p k = (k \<in> set (member_names p))"

definition inherits :: "plugins_object \<Rightarrow> string \<Rightarrow> bool" where
  "inherits ob k = (case prototype ob of None \<Rightarrow> False | Some proto \<Rightarrow> has_member proto k)"

text \<open>
  \<^verbatim>\<open>resultingPluginsMap[p.id] = p\<close>.  The key \<^verbatim>\<open>__proto__\<close> reaches the setter of
  \<^verbatim>\<open>Object.prototype\<close>, which replaces the prototype, unless a data property of that
  name is found first, on the map or on the descriptor that is its prototype; every
  other assignment creates or updates an own property.
\<close>

definition plugins_set :: "IPluginDescription \<Rightarrow> plugins_object \<Rightarrow> plugins_object" where
  "plugins_set p ob =
     (if plugin_id p = ''__proto__'' \<and> map_of (own_properties ob) ''__proto__'' = None
         \<and> \<not> inherits ob ''__proto__''
      then ob\<lparr>prototype := Some p\<rparr>
      else ob\<lparr>own_properties := AList.update (plugin_id p) p (own_properties ob)\<rparr>)"

text \<open>
  \<^verbatim>\<open>resultingPluginsMap.hasOwnProperty(k)\<close>: a \<^verbatim>\<open>TypeError\<close> when the name
  \<^verbatim>\<open>hasOwnProperty\<close> is an own property of the map or a property of the descriptor that
  is its prototype, and the answer of the inherited method otherwise.
\<close>

definition hasOwnProperty :: "plugins_object \<Rightarrow> string \<Rightarrow> jserror + bool" where
  "hasOwnProperty ob k =
     (case map_of (own_properties ob) ''hasOwnProperty'' of
        Some shadow \<Rightarrow> Inl ''TypeError: resultingPluginsMap.hasOwnProperty is not a function''
      | None \<Rightarrow>
          if inherits ob ''hasOwnProperty''
          then Inl ''TypeError: resultingPluginsMap.hasOwnProperty is not a function''
          else Inr (map_of (own_properties ob) k \<noteq> None))"

fun forEach_builtin :: "IPluginDescription list \<Rightarrow> plugins_object \<Rightarrow> plugins_object" where
  "forEach_builtin [] ob = ob"
| "forEach_builtin (builtinPlugin # rest) ob = forEach_builtin rest (plugins_set builtinPlugin ob)"

text \<open>
  The body shared by the user and the development loop: warn when the id is an own
  property, then store.  Reading the overwritten entry cannot fail after a positive
  \<^verbatim>\<open>hasOwnProperty\<close>; the branch is kept as the \<^verbatim>\<open>TypeError\<close> it would be.
\<close>

definition warn_and_store ::
  "IPluginDescription \<Rightarrow> collector \<Rightarrow> plugins_object \<Rightarrow> collector \<times> (jserror + plugins_object)" where
  "warn_and_store p c ob =
     (case hasOwnProperty ob (plugin_id p) of
        Inl e \<Rightarrow> (c, Inl e)
      | Inr False \<Rightarrow> (c, Inr (plugins_set p ob))
      | Inr True \<Rightarrow>
          (case obj_get (own_properties ob) (plugin_id p) of
             None \<Rightarrow> (c, Inl ''TypeError: Cannot read property extensionFolderPath of undefined'')
           | Some old \<Rightarrow> (collector_warn [] (overwriting old p) c, Inr (plugins_set p ob))))"

fun forEach_user ::
  "IPluginDescription list \<Rightarrow> collector \<Rightarrow> plugins_object
     \<Rightarrow> collector \<times> (jserror + plugins_object)" where
  "forEach_user [] c ob = (c, Inr ob)"
| "forEach_user (userPlugin # rest) c ob =
     (case warn_and_store userPlugin c ob of
        (c', Inl e) \<Rightarrow> (c', Inl e)
      | (c', Inr ob') \<Rightarrow> forEach_user rest c' ob')"

fun forEach_dev ::
  "IPluginDescription list \<Rightarrow> collector \<Rightarrow> plugins_object
     \<Rightarrow> collector \<times> (jserror + plugins_object)" where
  "forEach_dev [] c ob = (c, Inr ob)"
| "forEach_dev (extensionDevPlugin # rest) c ob =
     (case warn_and_store extensionDevPlugin
             (collector_info [] (loading_development extensionDevPlugin) c) ob of
        (c', Inl e) \<Rightarrow> (c', Inl e)
      | (c', Inr ob') \<Rightarrow> forEach_dev rest c' ob')"

definition mergePlugins ::
  "collector \<Rightarrow> IPluginDescription list \<Rightarrow> IPluginDescription list \<Rightarrow> IPluginDescription list
     \<Rightarrow> collector \<times> (jserror + IPluginDescription list)" where
  "mergePlugins c builtinPlugins userPlugins extensionDevPlugins =
     (case forEach_user userPlugins c
             (forEach_builtin builtinPlugins \<lparr>own_properties = [], prototype = None\<rparr>) of
        (c1, Inl e) \<Rightarrow> (c1, Inl e)
      | (c1, Inr ob1) \<Rightarrow>
          (case forEach_dev extensionDevPlugins c1 ob1 of
             (c2, Inl e) \<Rightarrow> (c2, Inl e)
           | (c2, Inr resultingPluginsMap) \<Rightarrow>
               (c2, Inr (List.map_filter (obj_get (own_properties resultingPluginsMap))
                            (Object_keys (own_properties resultingPluginsMap))))))"

section \<open>The host's surroundings\<close>

text \<open>
  What the process is configured with: the workspace and the \<^verbatim>\<open>env\<close> part of the
  configuration, as \<^verbatim>\<open>contextService\<close> returns them, and the first message of the
  parent, which carries them together with the parent's process id.
\<close>

record URI =
  fsPath :: string

record IWorkspace =
  resource :: "URI option"

record IEnvironment =
  userPluginsHome :: "string option"
  pluginDevelopmentPath :: "string option"
  pluginTestsPath :: "string option"
  version :: string

record IWorkspaceContextService =
  getWorkspace :: "IWorkspace option"
  getConfiguration_env :: IEnvironment

record IInitData =
  parentPid :: nat
  contextService :: IWorkspaceContextService

text \<open>
  A promise as its holder sees it when it is handed over.
\<close>

datatype promise_state = Pending | Fulfilled | Rejected jserror

datatype require_result = Throws jserror | Loaded bool

text \<open>
  The collaborators whose code is outside the files at hand are parameters:
  \<^item> the two scanners of \<^verbatim>\<open>vs/workbench/node/extensionPoints\<close>: the diagnostics they add to
    the collector and how their promise settles;
  \<^item> the value with which \<^verbatim>\<open>TPromise.join\<close> rejects, computed from the joined outcomes;
  \<^item> \<^verbatim>\<open>BUILTIN_PLUGINS_PATH\<close>, computed from the module's location;
  \<^item> \<^verbatim>\<open>paths.join\<close>, and the existence test behind \<^verbatim>\<open>pfs.fileExistsWithResult\<close>;
  \<^item> \<^verbatim>\<open>pluginService.activateByEvent\<close>: the state of the promise it returns;
  \<^item> node's \<^verbatim>\<open>require\<close> of the test runner: it throws, or it loads a module, and
    \<open>Loaded b\<close> tells whether \<^verbatim>\<open>testRunner && typeof testRunner.run === 'function'\<close>.
\<close>

record externals =
  PluginScanner_scanPlugins ::
    "string \<Rightarrow> string \<Rightarrow> bool \<Rightarrow> IMessage list \<times> (jserror + IPluginDescription list)"
  PluginScanner_scanOneOrMultiplePlugins ::
    "string \<Rightarrow> string \<Rightarrow> bool \<Rightarrow> IMessage list \<times> (jserror + IPluginDescription list)"
  join_error :: "jserror option list \<Rightarrow> jserror"
  BUILTIN_PLUGINS_PATH :: string
  paths_join :: "string \<Rightarrow> string \<Rightarrow> string"
  pfs_fileExists :: "string \<Rightarrow> bool"
  pluginService_activateByEvent :: "string \<Rightarrow> promise_state"
  nodeRequire :: "string \<Rightarrow> require_result"

text \<open>
  Modelled from the spec: \<^verbatim>\<open>pfs.fileExistsWithResult\<close> (outside the files at hand) is
  an existence check; its promise yields the given result when the file exists and
  \<^verbatim>\<open>null\<close> otherwise.
\<close>

definition fileExistsWithResult :: "externals \<Rightarrow> string \<Rightarrow> string \<Rightarrow> string option" where
  "fileExistsWithResult ext path successResult =
     (if pfs_fileExists ext path then Some successResult else None)"

section \<open>Effects\<close>

datatype timer_action = ExitProcess | ProbeParent nat | CheckStats

datatype event =
    ProcessOnce string
  | ProcessOn string
  | ProcessSend string
  | RemoteComHandle IInitData
  | ConsoleError string
  | ConsoleWarn string
  | ConsoleWarnSend nat nat
  | OnUnexpectedError jserror
  | ProcessKill nat nat
  | ProcessExit
  | ProcessCrash jserror
  | SetInterval timer_action nat
  | SetTimeout timer_action nat
  | ScanPlugins string string bool
  | ScanOneOrMultiplePlugins string string bool
  | RegisterPlugins "IPluginDescription list"
  | RegistrationDone "IMessage list"
  | ActivateByEvent string
  | FileExistsWithResult string string
  | NodeRequire string
  | TestRunnerRun string

text \<open>
  The state of the process: what it has done so far (\<open>trace\<close>), the listeners and timers
  it has installed, the statistics array of \<^verbatim>\<open>connectToRenderer\<close>, the value of the
  renderer connection once it is there, the process-wide registry, the activation
  requests whose promise is still open, the promise of the test run, whether the
  connection to the shared process stands, and whether the process has ended.
\<close>

record world =
  trace :: "event list"
  onceMessage :: bool
  onMessage :: bool
  onUnhandledRejection :: bool
  onUncaughtException :: bool
  intervals :: "(timer_action \<times> nat) list"
  timeouts :: "(timer_action \<times> nat) list"
  stats :: "nat list"
  initData :: "IInitData option"
  registry :: "IPluginDescription list"
  pendingActivations :: "string list"
  testRun :: "promise_state option"
  sharedProcess :: bool
  exited :: bool

definition emit :: "event \<Rightarrow> world \<Rightarrow> world" where
  "emit e w = w\<lparr>trace := trace w @ [e]\<rparr>"

definition setTimeout :: "timer_action \<Rightarrow> nat \<Rightarrow> world \<Rightarrow> world" where
  "setTimeout a ms w = (emit (SetTimeout a ms) w)\<lparr>timeouts := timeouts w @ [(a, ms)]\<rparr>"

definition setInterval :: "timer_action \<Rightarrow> nat \<Rightarrow> world \<Rightarrow> world" where
  "setInterval a ms w = (emit (SetInterval a ms) w)\<lparr>intervals := intervals w @ [(a, ms)]\<rparr>"

definition process_exit :: "world \<Rightarrow> world" where
  "process_exit w = (emit ProcessExit w)\<lparr>exited := True\<rparr>"

text \<open>
  Modelled from the spec: \<^verbatim>\<open>PluginsRegistry\<close> (outside the files at hand) publishes the
  registered descriptors and hands them back.
\<close>

definition registerPlugins :: "IPluginDescription list \<Rightarrow> world \<Rightarrow> world" where
  "registerPlugins extensions w =
     (emit (RegisterPlugins extensions) w)\<lparr>registry := registry w @ extensions\<rparr>"

definition getAllPluginDescriptions :: "world \<Rightarrow> IPluginDescription list" where
  "getAllPluginDescriptions w = registry w"

definition registrationDone :: "IMessage list \<Rightarrow> world \<Rightarrow> world" where
  "registrationDone messages w = emit (RegistrationDone messages) w"

section \<open>The lifecycle of \<^verbatim>\<open>PluginHostMain\<close>\<close>

text \<open>
  A method that returns a promise is a function from the state to the state of that
  promise and the new state.  A promise that the method awaits (a scan, the existence
  checks) is taken to settle, and the process is taken to be alive while the chain runs;
  what settles later without being awaited (an activation request, the test runner's
  callback) is an input of the process, see \<open>deliver\<close> below.
\<close>

subsection \<open>\<^verbatim>\<open>scanPlugins\<close>\<close>

definition scan_if_given ::
  "(string \<Rightarrow> IMessage list \<times> (jserror + IPluginDescription list)) \<Rightarrow> string option
     \<Rightarrow> IMessage list \<times> (jserror + IPluginDescription list)" where
  "scan_if_given scan path =
     (case path of None \<Rightarrow> ([], Inr []) | Some p \<Rightarrow> if p = [] then ([], Inr []) else scan p)"

definition called_if_given :: "(string \<Rightarrow> event) \<Rightarrow> string option \<Rightarrow> world \<Rightarrow> world" where
  "called_if_given call path w =
     (case path of None \<Rightarrow> w | Some p \<Rightarrow> if p = [] then w else emit (call p) w)"

definition rejection :: "jserror + 'a \<Rightarrow> jserror option" where
  "rejection r = (case r of Inl e \<Rightarrow> Some e | Inr _ \<Rightarrow> None)"

text \<open>
  The three scans are started one after the other and joined.  The diagnostics of the
  scanners reach the collector in an order that the source leaves open; the model lists
  them source by source, and everything the merge reports comes after them.
\<close>

definition scanPlugins ::
  "externals \<Rightarrow> collector \<Rightarrow> string \<Rightarrow> string option \<Rightarrow> string option \<Rightarrow> string \<Rightarrow> world
     \<Rightarrow> (collector \<times> (jserror + IPluginDescription list)) \<times> world" where
  "scanPlugins ext c builtinPluginsPath userInstallPath pluginDevelopmentPath' version' w =
     (let (m0, builtinPlugins) = PluginScanner_scanPlugins ext version' builtinPluginsPath True;
          w0 = emit (ScanPlugins version' builtinPluginsPath True) w;
          (m1, userPlugins) =
            scan_if_given (\<lambda>p. PluginScanner_scanPlugins ext version' p False) userInstallPath;
          w1 = called_if_given (\<lambda>p. ScanPlugins version' p False) userInstallPath w0;
          (m2, developedPlugins) =
            scan_if_given (\<lambda>p. PluginScanner_scanOneOrMultiplePlugins ext version' p False)
              pluginDevelopmentPath';
          w2 = called_if_given (\<lambda>p. ScanOneOrMultiplePlugins version' p False)
                 pluginDevelopmentPath' w1;
          c' = c @ m0 @ m1 @ m2
      in (case (builtinPlugins, userPlugins, developedPlugins) of
            (Inr b, Inr u, Inr d) \<Rightarrow> (mergePlugins c' b u d, w2)
          | _ \<Rightarrow> ((c', Inl (join_error ext
                       [rejection builtinPlugins, rejection userPlugins,
                        rejection developedPlugins])), w2)))"

subsection \<open>Eager activation\<close>

text \<open>
  \<^verbatim>\<open>this.pluginService.activateByEvent(e).then(null, err => console.error(err))\<close>: the
  request is issued; a promise that is already rejected is logged at once, an open one
  is remembered with its handler.
\<close>

definition activateByEvent :: "externals \<Rightarrow> string \<Rightarrow> world \<Rightarrow> world" where
  "activateByEvent ext activationEvent w =
     (let w1 = emit (ActivateByEvent activationEvent) w
      in case pluginService_activateByEvent ext activationEvent of
           Rejected err \<Rightarrow> emit (ConsoleError err) w1
         | Fulfilled \<Rightarrow> w1
         | Pending \<Rightarrow> w1\<lparr>pendingActivations := pendingActivations w1 @ [activationEvent]\<rparr>)"

fun desired_of_events :: "string list \<Rightarrow> bool jsobject \<Rightarrow> bool jsobject" where
  "desired_of_events [] m = m"
| "desired_of_events (ev # evs) m =
     desired_of_events evs
       (if take (length ''workspaceContains:'') ev = ''workspaceContains:''
        then obj_set (drop (length ''workspaceContains:'') ev) True m
        else m)"

fun desiredFiles :: "IPluginDescription list \<Rightarrow> bool jsobject \<Rightarrow> bool jsobject" where
  "desiredFiles [] m = m"
| "desiredFiles (desc # rest) m =
     desiredFiles rest
       (case activationEvents desc of None \<Rightarrow> m | Some evs \<Rightarrow> desired_of_events evs m)"

definition activate_existing :: "externals \<Rightarrow> string option \<Rightarrow> world \<Rightarrow> world" where
  "activate_existing ext existingFileName w =
     (case existingFileName of
        None \<Rightarrow> w
      | Some n \<Rightarrow> if n = [] then w else activateByEvent ext (''workspaceContains:'' @ n) w)"

definition handleWorkspaceContainsEagerPlugins ::
  "externals \<Rightarrow> IWorkspaceContextService \<Rightarrow> world \<Rightarrow> promise_state \<times> world" where
  "handleWorkspaceContainsEagerPlugins ext ctx w =
     (case getWorkspace ctx of
        None \<Rightarrow> (Fulfilled, w)
      | Some workspace \<Rightarrow>
          (case resource workspace of
             None \<Rightarrow> (Fulfilled, w)
           | Some uri \<Rightarrow>
               (let folderPath = fsPath uri;
                    desiredFilesMap = desiredFiles (getAllPluginDescriptions w) [];
                    keys = Object_keys desiredFilesMap;
                    w1 = fold (\<lambda>fileName.
                                 emit (FileExistsWithResult (paths_join ext folderPath fileName)
                                         fileName)) keys w;
                    fileNames = map (\<lambda>fileName.
                                 fileExistsWithResult ext (paths_join ext folderPath fileName)
                                   fileName) keys
                in (Fulfilled, fold (activate_existing ext) fileNames w1))))"

definition handleEagerPlugins ::
  "externals \<Rightarrow> IWorkspaceContextService \<Rightarrow> world \<Rightarrow> promise_state \<times> world" where
  "handleEagerPlugins ext ctx w =
     handleWorkspaceContainsEagerPlugins ext ctx (activateByEvent ext ''*'' w)"

subsection \<open>The test run\<close>

definition pluginTestError :: "string \<Rightarrow> string" where
  "pluginTestError path =
     ''Path '' @ path @ '' does not point to a valid extension test runner.''"

text \<open>
  With a conforming runner the promise stays open until the runner calls back; the
  callback is \<open>testCallback\<close> below.  \<^verbatim>\<open>testRunner.run\<close> is taken to return normally.
\<close>

definition handlePluginTests ::
  "externals \<Rightarrow> IWorkspaceContextService \<Rightarrow> world \<Rightarrow> promise_state \<times> world" where
  "handlePluginTests ext ctx w =
     (let env = getConfiguration_env ctx
      in if \<not> truthy (pluginTestsPath env) \<or> \<not> truthy (pluginDevelopmentPath env)
         then (Fulfilled, w)
         else (case pluginTestsPath env of
                 None \<Rightarrow> (Fulfilled, w)
               | Some testsPath \<Rightarrow>
                   (let w1 = emit (NodeRequire testsPath) w
                    in case nodeRequire ext testsPath of
                         Loaded True \<Rightarrow>
                           (Pending, (emit (TestRunnerRun testsPath) w1)\<lparr>testRun := Some Pending\<rparr>)
                       | Loaded False \<Rightarrow>
                           (Rejected (pluginTestError testsPath), setTimeout ExitProcess 0 w1)
                       | Throws requireError \<Rightarrow>
                           (Rejected requireError, setTimeout ExitProcess 0 w1))))"

subsection \<open>\<^verbatim>\<open>readPlugins\<close> and \<^verbatim>\<open>start\<close>\<close>

definition readPlugins ::
  "externals \<Rightarrow> IWorkspaceContextService \<Rightarrow> world \<Rightarrow> promise_state \<times> world" where
  "readPlugins ext ctx w =
     (let env = getConfiguration_env ctx;
          ((c1, scanned), w1) =
            scanPlugins ext [] (BUILTIN_PLUGINS_PATH ext) (userPluginsHome env)
              (pluginDevelopmentPath env) (version env) w;
          (c2, extensions) =
            (case scanned of Inl err \<Rightarrow> (collector_error [] err c1, []) | Inr exts \<Rightarrow> (c1, exts));
          w2 = registrationDone (getMessages c2) (registerPlugins extensions w1);
          (p, w3) = handleEagerPlugins ext ctx w2
      in case p of Fulfilled \<Rightarrow> handlePluginTests ext ctx w3 | _ \<Rightarrow> (p, w3))"

definition start ::
  "externals \<Rightarrow> IWorkspaceContextService \<Rightarrow> world \<Rightarrow> promise_state \<times> world" where
  "start ext ctx w = readPlugins ext ctx w"

section \<open>The process\<close>

subsection \<open>The top-level join\<close>

text \<open>
  The callback of \<^verbatim>\<open>TPromise.join([connectToRenderer(), connectToSharedProcess()])\<close>:
  the services are created from the init data and \<^verbatim>\<open>start()\<close> runs, with
  \<^verbatim>\<open>console.error\<close> as the handler of its rejection.  Of \<^verbatim>\<open>createServices\<close> only the
  context service matters here: it is built from the init data's \<open>contextService\<close>.
\<close>

definition hostMain :: "externals \<Rightarrow> world \<Rightarrow> world" where
  "hostMain ext w =
     (case initData w of
        None \<Rightarrow> w
      | Some d \<Rightarrow>
          (case start ext (contextService d) w of
             (Rejected err, w') \<Rightarrow> emit (ConsoleError err) w'
           | (_, w') \<Rightarrow> w'))"

subsection \<open>\<^verbatim>\<open>connectToRenderer\<close>\<close>

definition connectToRenderer :: "world \<Rightarrow> world" where
  "connectToRenderer w =
     emit (ProcessSend ''ready'') (emit (ProcessOnce ''message'') (w\<lparr>onceMessage := True\<rparr>))"

text \<open>
  The listener of the init data message.  Resolving the connection promise completes the
  top-level join when the shared process is connected already.
\<close>

definition onInitMessage :: "externals \<Rightarrow> IInitData \<Rightarrow> world \<Rightarrow> world" where
  "onInitMessage ext msg w =
     (let w1 = emit (ProcessOn ''message'') (w\<lparr>onMessage := True\<rparr>);
          w2 = emit (ProcessOn ''unhandledRejection'') (w1\<lparr>onUnhandledRejection := True\<rparr>);
          w3 = emit (ProcessOn ''uncaughtException'') (w2\<lparr>onUncaughtException := True\<rparr>);
          w4 = setInterval (ProbeParent (parentPid msg)) 5000 w3;
          w5 = setInterval CheckStats 1000 w4;
          w6 = (emit (ProcessSend ''initialized'') w5)\<lparr>initData := Some msg\<rparr>
      in if sharedProcess w6 then hostMain ext w6 else w6)"

subsection \<open>Callbacks\<close>

text \<open>
  The callback handed to \<^verbatim>\<open>testRunner.run\<close>.  The promise settles at the first call
  only; a rejection reaches the handler of the top-level \<^verbatim>\<open>start()\<close>.  (When the runner
  calls back before \<^verbatim>\<open>run\<close> returns, the source logs after scheduling the exit; the
  model keeps the order of the asynchronous call.)
\<close>

definition testCallback :: "jserror option \<Rightarrow> world \<Rightarrow> world" where
  "testCallback error w =
     (let w1 = (if testRun w = Some Pending
                then (case error of
                        Some err \<Rightarrow> emit (ConsoleError err) (w\<lparr>testRun := Some (Rejected err)\<rparr>)
                      | None \<Rightarrow> w\<lparr>testRun := Some Fulfilled\<rparr>)
                else w)
      in setTimeout ExitProcess 800 w1)"

text \<open>
  What a timer runs; \<open>throws\<close> tells whether \<^verbatim>\<open>process.kill(pid, 0)\<close> throws this time.
\<close>

definition run_timer :: "timer_action \<Rightarrow> bool \<Rightarrow> world \<Rightarrow> world" where
  "run_timer a throws w =
     (case a of
        ExitProcess \<Rightarrow> process_exit w
      | ProbeParent pid \<Rightarrow>
          (let w1 = emit (ProcessKill pid 0) w in if throws then process_exit w1 else w1)
      | CheckStats \<Rightarrow>
          (let w1 = (if length (stats w) \<ge> 250
                     then emit (ConsoleWarnSend (length (stats w)) (foldl (+) 0 (stats w)))
                            (emit (ConsoleWarn
                               ''MANY messages are being SEND FROM the extension host!'') w)
                     else w)
           in w1\<lparr>stats := []\<rparr>))"

subsection \<open>Inputs\<close>

text \<open>
  What reaches the process from outside: a message of the parent, data that the IPC
  layer sends through the callback given to \<^verbatim>\<open>createIPC\<close>, the two error events of
  node, a timer that fires, an activation promise that settles, the test runner calling
  back, and the connection to the shared process coming up (it is taken to succeed).
  Node ends the process on an uncaught exception when no listener is installed, and
  ignores an unhandled rejection then.  Nothing runs after the process has ended.
\<close>

datatype input =
    Message IInitData
  | IpcSend string
  | UnhandledRejection jserror
  | UncaughtException jserror
  | IntervalFires nat bool
  | TimeoutFires nat
  | ActivationSettled string "jserror option"
  | TestRunnerCallback "jserror option"
  | SharedProcessConnected

definition deliver :: "externals \<Rightarrow> input \<Rightarrow> world \<Rightarrow> world" where
  "deliver ext i w =
     (if exited w then w
      else case i of
        Message msg \<Rightarrow>
          (let once = onceMessage w;
               wired = onMessage w;
               w1 = (if once then onInitMessage ext msg (w\<lparr>onceMessage := False\<rparr>) else w)
           in if wired then emit (RemoteComHandle msg) w1 else w1)
      | IpcSend data \<Rightarrow>
          (if initData w = None then w
           else (emit (ProcessSend data) w)\<lparr>stats := stats w @ [length data]\<rparr>)
      | UnhandledRejection reason \<Rightarrow>
          (if onUnhandledRejection w
           then emit (OnUnexpectedError reason) (emit (ConsoleError ''unhandled rejected promise'') w)
           else w)
      | UncaughtException err \<Rightarrow>
          (if onUncaughtException w then emit (OnUnexpectedError err) w
           else (emit (ProcessCrash err) w)\<lparr>exited := True\<rparr>)
      | IntervalFires n throws \<Rightarrow>
          (if n < length (intervals w) then run_timer (fst (intervals w ! n)) throws w else w)
      | TimeoutFires n \<Rightarrow>
          (if n < length (timeouts w)
           then run_timer (fst (timeouts w ! n)) False
                  (w\<lparr>timeouts := take n (timeouts w) @ drop (Suc n) (timeouts w)\<rparr>)
           else w)
      | ActivationSettled activationEvent outcome \<Rightarrow>
          (if activationEvent \<in> set (pendingActivations w)
           then (let w1 = w\<lparr>pendingActivations := remove1 activationEvent (pendingActivations w)\<rparr>
                 in case outcome of Some err \<Rightarrow> emit (ConsoleError err) w1 | None \<Rightarrow> w1)
           else w)
      | TestRunnerCallback error \<Rightarrow>
          (if testRun w = None then w else testCallback error w)
      | SharedProcessConnected \<Rightarrow>
          (if sharedProcess w then w
           else (let w1 = w\<lparr>sharedProcess := True\<rparr>
                 in if initData w1 = None then w1 else hostMain ext w1)))"

definition run :: "externals \<Rightarrow> input list \<Rightarrow> world \<Rightarrow> world" where
  "run ext inputs w = fold (deliver ext) inputs w"

definition boot :: world where
  "boot = \<lparr>trace = [], onceMessage = False, onMessage = False, onUnhandledRejection = False,
            onUncaughtException = False, intervals = [], timeouts = [], stats = [],
            initData = None, registry = [], pendingActivations = [], testRun = None,
            sharedProcess = False, exited = False\<rparr>"

definition pluginHostProcess :: world where
  "pluginHostProcess = connectToRenderer boot"

section \<open>Notions used to state the properties\<close>

subsection \<open>Precedence of the scanned sources\<close>

text \<open>
  The descriptor that a source contributes for an id is the last one it lists with that
  id; \<open>winner\<close> is the contribution of the highest source that has one, development
  before user before built-in.
\<close>

fun last_with_id :: "string \<Rightarrow> IPluginDescription list \<Rightarrow> IPluginDescription option" where
  "last_with_id i [] = None"
| "last_with_id i (p # ps) =
     (case last_with_id i ps of
        Some q \<Rightarrow> Some q
      | None \<Rightarrow> if plugin_id p = i then Some p else None)"

definition winner ::
  "string \<Rightarrow> IPluginDescription list \<Rightarrow> IPluginDescription list \<Rightarrow> IPluginDescription list
     \<Rightarrow> IPluginDescription option" where
  "winner i builtin user dev =
     (case last_with_id i dev of
        Some p \<Rightarrow> Some p
      | None \<Rightarrow> (case last_with_id i user of Some p \<Rightarrow> Some p | None \<Rightarrow> last_with_id i builtin))"

text \<open>
  A descriptor shadows the method \<^verbatim>\<open>hasOwnProperty\<close> of \<^verbatim>\<open>resultingPluginsMap\<close> when
  it is stored under that name, or has a property of that name and the id
  \<^verbatim>\<open>__proto__\<close>.  The invariant of the map while no such descriptor is stored: each key
  is the id of the descriptor stored under it, no key occurs twice, and the method is
  the inherited one.
\<close>

definition shadows_method :: "IPluginDescription \<Rightarrow> bool" where
  "shadows_method p \<longleftrightarrow>
     plugin_id p = ''hasOwnProperty''
     \<or> (plugin_id p = ''__proto__'' \<and> has_member p ''hasOwnProperty'')"

definition plugins_map :: "plugins_object \<Rightarrow> bool" where
  "plugins_map ob \<longleftrightarrow>
     distinct (map fst (own_properties ob))
     \<and> list_all (\<lambda>(k, p). plugin_id p = k) (own_properties ob)
     \<and> map_of (own_properties ob) ''hasOwnProperty'' = None
     \<and> \<not> inherits ob ''hasOwnProperty''"

text \<open>
  The diagnostics as the collector stores them, and the entry that an id has after the
  map \<open>m\<close> took the descriptors \<open>ps\<close>.
\<close>

definition overwrite_warning :: "IPluginDescription \<Rightarrow> IPluginDescription \<Rightarrow> IMessage" where
  "overwrite_warning old new = \<lparr>msg_type = Warning, message = overwriting old new, source = []\<rparr>"

definition development_info :: "IPluginDescription \<Rightarrow> IMessage" where
  "development_info p = \<lparr>msg_type = Info, message = loading_development p, source = []\<rparr>"

definition holder ::
  "IPluginDescription jsobject \<Rightarrow> IPluginDescription list \<Rightarrow> string \<Rightarrow> IPluginDescription option" where
  "holder m ps i = (case last_with_id i ps of Some q \<Rightarrow> Some q | None \<Rightarrow> map_of m i)"

subsection \<open>Reading the trace\<close>

text \<open>
  The file name of an existence check and the event string of an activation request;
  the events that \<open>w'\<close> has beyond \<open>w\<close>; the events of one logged activation request
  and of one answer of the existence checks; the descriptors that declare an event; the
  test of \<^verbatim>\<open>/^workspaceContains:/\<close>; and the keys of \<^verbatim>\<open>desiredFilesMap\<close> in the
  order of \<^verbatim>\<open>Object.keys\<close>.
\<close>

fun checked_name :: "event \<Rightarrow> string option" where
  "checked_name (FileExistsWithResult path name) = Some name"
| "checked_name _ = None"

fun requested_activation :: "event \<Rightarrow> string option" where
  "requested_activation (ActivateByEvent activationEvent) = Some activationEvent"
| "requested_activation _ = None"

definition events_since :: "world \<Rightarrow> world \<Rightarrow> event list" where
  "events_since w w' = drop (length (trace w)) (trace w')"

definition activation_events :: "externals \<Rightarrow> string \<Rightarrow> event list" where
  "activation_events ext activationEvent =
     ActivateByEvent activationEvent #
       (case pluginService_activateByEvent ext activationEvent of
          Rejected err \<Rightarrow> [ConsoleError err] | _ \<Rightarrow> [])"

definition existing_events :: "externals \<Rightarrow> string option \<Rightarrow> event list" where
  "existing_events ext existingFileName =
     (case existingFileName of
        None \<Rightarrow> []
      | Some n \<Rightarrow> if n = [] then [] else activation_events ext (''workspaceContains:'' @ n))"

definition declares :: "IPluginDescription \<Rightarrow> string \<Rightarrow> bool" where
  "declares desc activationEvent =
     (case activationEvents desc of None \<Rightarrow> False | Some evs \<Rightarrow> activationEvent \<in> set evs)"

definition is_workspaceContains :: "string \<Rightarrow> bool" where
  "is_workspaceContains ev \<longleftrightarrow> take (length ''workspaceContains:'') ev = ''workspaceContains:''"

definition desired_keys :: "world \<Rightarrow> string list" where
  "desired_keys w = Object_keys (desiredFiles (getAllPluginDescriptions w) [])"

subsection \<open>Stages of the lifecycle\<close>

text \<open>
  What the stages before the test run leave alone: the listeners, the timers, the
  statistics, the init data, the connection to the shared process, the test promise, and
  whether the process has ended.
\<close>

definition untouched :: "world \<Rightarrow> world \<Rightarrow> bool" where
  "untouched w w' \<longleftrightarrow>
     onceMessage w' = onceMessage w \<and> onMessage w' = onMessage w
     \<and> onUnhandledRejection w' = onUnhandledRejection w
     \<and> onUncaughtException w' = onUncaughtException w
     \<and> intervals w' = intervals w \<and> stats w' = stats w \<and> initData w' = initData w
     \<and> sharedProcess w' = sharedProcess w \<and> exited w' = exited w
     \<and> timeouts w' = timeouts w \<and> testRun w' = testRun w"

text \<open>
  The state in which \<^verbatim>\<open>handlePluginTests\<close> is entered: \<^verbatim>\<open>readPlugins\<close> up to and
  including the eager activation.
\<close>

definition before_tests :: "externals \<Rightarrow> IWorkspaceContextService \<Rightarrow> world \<Rightarrow> world" where
  "before_tests ext ctx w =
     (let env = getConfiguration_env ctx;
          ((c1, scanned), w1) =
            scanPlugins ext [] (BUILTIN_PLUGINS_PATH ext) (userPluginsHome env)
              (pluginDevelopmentPath env) (version env) w;
          (c2, extensions) =
            (case scanned of Inl err \<Rightarrow> (collector_error [] err c1, []) | Inr exts \<Rightarrow> (c1, exts));
          w2 = registrationDone (getMessages c2) (registerPlugins extensions w1)
      in snd (handleEagerPlugins ext ctx w2))"


fun is_eager_activation :: "event \<Rightarrow> bool" where
  "is_eager_activation (ActivateByEvent e) = True"
| "is_eager_activation (FileExistsWithResult p n) = True"
| "is_eager_activation (ConsoleError err) = True"
| "is_eager_activation _ = False"


text \<open>
  The folder of the workspace when there is one; the existence checks, the activation
  requests and all events of the eager stage, written out; the diagnostic of a failed
  scan; and the error of a test runner that cannot be used.
\<close>

definition root_folder :: "IWorkspaceContextService \<Rightarrow> string option" where
  "root_folder ctx =
     (case getWorkspace ctx of
        None \<Rightarrow> None
      | Some ws \<Rightarrow> (case resource ws of None \<Rightarrow> None | Some uri \<Rightarrow> Some (fsPath uri)))"

definition eager_checks :: "externals \<Rightarrow> IWorkspaceContextService \<Rightarrow> world \<Rightarrow> event list" where
  "eager_checks ext ctx w =
     (case root_folder ctx of
        None \<Rightarrow> []
      | Some folder \<Rightarrow>
          map (\<lambda>f. FileExistsWithResult (paths_join ext folder f) f) (desired_keys w))"

definition eager_requests :: "externals \<Rightarrow> IWorkspaceContextService \<Rightarrow> world \<Rightarrow> string list" where
  "eager_requests ext ctx w =
     ''*'' #
     (case root_folder ctx of
        None \<Rightarrow> []
      | Some folder \<Rightarrow>
          map (\<lambda>f. ''workspaceContains:'' @ f)
            (filter (\<lambda>f. f \<noteq> [] \<and> pfs_fileExists ext (paths_join ext folder f))
               (desired_keys w)))"

definition eager_events :: "externals \<Rightarrow> IWorkspaceContextService \<Rightarrow> world \<Rightarrow> event list" where
  "eager_events ext ctx w =
     activation_events ext ''*'' @ eager_checks ext ctx w
     @ concat (map (activation_events ext) (tl (eager_requests ext ctx w)))"

definition error_diagnostic :: "jserror \<Rightarrow> IMessage" where
  "error_diagnostic err = \<lparr>msg_type = Error, message = err, source = []\<rparr>"

definition test_failure :: "externals \<Rightarrow> string \<Rightarrow> string" where
  "test_failure ext path =
     (case nodeRequire ext path of Throws requireError \<Rightarrow> requireError
      | Loaded b \<Rightarrow> pluginTestError path)"

text \<open>
  The scan that \<^verbatim>\<open>readPlugins\<close> starts, what it registers and hands to
  \<^verbatim>\<open>registrationDone\<close>, the state after the registration, and the events of the
  discovery and of the test run, written out.
\<close>

definition scanned ::
  "externals \<Rightarrow> IWorkspaceContextService \<Rightarrow> world
     \<Rightarrow> (collector \<times> (jserror + IPluginDescription list)) \<times> world" where
  "scanned ext ctx w =
     scanPlugins ext [] (BUILTIN_PLUGINS_PATH ext) (userPluginsHome (getConfiguration_env ctx))
       (pluginDevelopmentPath (getConfiguration_env ctx)) (version (getConfiguration_env ctx)) w"

definition registered ::
  "externals \<Rightarrow> IWorkspaceContextService \<Rightarrow> world \<Rightarrow> IPluginDescription list" where
  "registered ext ctx w =
     (case snd (fst (scanned ext ctx w)) of Inl err \<Rightarrow> [] | Inr exts \<Rightarrow> exts)"

definition collected :: "externals \<Rightarrow> IWorkspaceContextService \<Rightarrow> world \<Rightarrow> IMessage list" where
  "collected ext ctx w =
     (case snd (fst (scanned ext ctx w)) of
        Inl err \<Rightarrow> fst (fst (scanned ext ctx w)) @ [error_diagnostic err]
      | Inr exts \<Rightarrow> fst (fst (scanned ext ctx w)))"

definition after_registration ::
  "externals \<Rightarrow> IWorkspaceContextService \<Rightarrow> world \<Rightarrow> world" where
  "after_registration ext ctx w =
     registrationDone (collected ext ctx w)
       (registerPlugins (registered ext ctx w) (snd (scanned ext ctx w)))"

definition scan_events :: "externals \<Rightarrow> IEnvironment \<Rightarrow> event list" where
  "scan_events ext env =
     [ScanPlugins (version env) (BUILTIN_PLUGINS_PATH ext) True]
     @ (case userPluginsHome env of
          None \<Rightarrow> []
        | Some p \<Rightarrow> if p = [] then [] else [ScanPlugins (version env) p False])
     @ (case pluginDevelopmentPath env of
          None \<Rightarrow> []
        | Some p \<Rightarrow> if p = [] then [] else [ScanOneOrMultiplePlugins (version env) p False])"

definition test_events :: "externals \<Rightarrow> IEnvironment \<Rightarrow> event list" where
  "test_events ext env =
     (if \<not> truthy (pluginTestsPath env) \<or> \<not> truthy (pluginDevelopmentPath env) then []
      else (case pluginTestsPath env of
              None \<Rightarrow> []
            | Some t \<Rightarrow>
                NodeRequire t #
                (case nodeRequire ext t of
                   Loaded True \<Rightarrow> [TestRunnerRun t]
                 | _ \<Rightarrow> [SetTimeout ExitProcess 0])))"

subsection \<open>The handshake and the running process\<close>

text \<open>
  The message that an event hands to \<^verbatim>\<open>remoteCom.handle\<close>, and the messages so
  handled by a state; the messages of an input sequence that reach the process while it
  is alive; the state before and after the init data message.
\<close>

fun dispatched :: "event \<Rightarrow> IInitData option" where
  "dispatched (RemoteComHandle msg) = Some msg"
| "dispatched _ = None"

definition handled :: "world \<Rightarrow> IInitData list" where
  "handled w = List.map_filter dispatched (trace w)"

fun received :: "externals \<Rightarrow> input list \<Rightarrow> world \<Rightarrow> IInitData list" where
  "received ext [] w = []"
| "received ext (i # inputs) w =
     (case i of Message msg \<Rightarrow> if exited w then [] else [msg] | _ \<Rightarrow> [])
     @ received ext inputs (deliver ext i w)"

definition awaiting :: "world \<Rightarrow> bool" where
  "awaiting w \<longleftrightarrow> onceMessage w \<and> \<not> onMessage w \<and> initData w = None"

definition wired :: "world \<Rightarrow> bool" where
  "wired w \<longleftrightarrow> \<not> onceMessage w \<and> onMessage w \<and> initData w \<noteq> None"

text \<open>
  What the whole lifecycle leaves alone, and what an input other than a message leaves
  alone; the events of the init data listener; the state that the listener reaches
  before the top-level join may complete; and the events of the callback of that join.
\<close>

definition same_process :: "world \<Rightarrow> world \<Rightarrow> bool" where
  "same_process w w' \<longleftrightarrow>
     onceMessage w' = onceMessage w \<and> onMessage w' = onMessage w
     \<and> onUnhandledRejection w' = onUnhandledRejection w
     \<and> onUncaughtException w' = onUncaughtException w
     \<and> intervals w' = intervals w \<and> stats w' = stats w \<and> initData w' = initData w
     \<and> sharedProcess w' = sharedProcess w \<and> exited w' = exited w"

definition same_wiring :: "world \<Rightarrow> world \<Rightarrow> bool" where
  "same_wiring w w' \<longleftrightarrow>
     onceMessage w' = onceMessage w \<and> onMessage w' = onMessage w \<and> initData w' = initData w
     \<and> handled w' = handled w"

definition handshake_events :: "IInitData \<Rightarrow> event list" where
  "handshake_events msg =
     [ProcessOn ''message'', ProcessOn ''unhandledRejection'', ProcessOn ''uncaughtException'',
      SetInterval (ProbeParent (parentPid msg)) 5000, SetInterval CheckStats 1000,
      ProcessSend ''initialized'']"

definition initialized :: "IInitData \<Rightarrow> world \<Rightarrow> world" where
  "initialized msg w =
     (emit (ProcessSend ''initialized'')
        (setInterval CheckStats 1000
           (setInterval (ProbeParent (parentPid msg)) 5000
              (emit (ProcessOn ''uncaughtException'')
                 ((emit (ProcessOn ''unhandledRejection'')
                     ((emit (ProcessOn ''message'') (w\<lparr>onMessage := True\<rparr>))
                        \<lparr>onUnhandledRejection := True\<rparr>))
                    \<lparr>onUncaughtException := True\<rparr>)))))
     \<lparr>initData := Some msg\<rparr>"

definition main_events :: "externals \<Rightarrow> world \<Rightarrow> event list" where
  "main_events ext w =
     (case initData w of
        None \<Rightarrow> []
      | Some d \<Rightarrow>
          events_since w (snd (readPlugins ext (contextService d) w))
          @ (case fst (readPlugins ext (contextService d) w) of
               Rejected err \<Rightarrow> [ConsoleError err] | _ \<Rightarrow> []))"

text \<open>
  The state after the handshake: the init data are there, the message listener and both
  error listeners are installed, the two intervals are the liveness probe of the parent
  (every 5000) and the statistics check (every 1000), and every pending timeout is an
  exit.
\<close>

definition connected :: "world \<Rightarrow> bool" where
  "connected w \<longleftrightarrow>
     (\<exists>d. initData w = Some d
          \<and> intervals w = [(ProbeParent (parentPid d), 5000), (CheckStats, 1000)])
     \<and> \<not> onceMessage w \<and> onMessage w \<and> onUnhandledRejection w \<and> onUncaughtException w
     \<and> list_all (\<lambda>t. fst t = ExitProcess) (timeouts w)"

section \<open>Concrete inputs\<close>

text \<open>
  Surroundings for the concrete runs below: scanners that return fixed lists, a path
  join with a slash, a file system in which every file exists, activation promises that
  are fulfilled when returned, and a test runner module with a \<^verbatim>\<open>run\<close> function.
\<close>

definition example_scanner ::
  "IPluginDescription list \<Rightarrow> IPluginDescription list \<Rightarrow> string \<Rightarrow> string \<Rightarrow> bool
     \<Rightarrow> IMessage list \<times> (jserror + IPluginDescription list)" where
  "example_scanner b u v p builtin = ([], Inr (if builtin then b else u))"

definition example_join :: "string \<Rightarrow> string \<Rightarrow> string" where
  "example_join folder name = folder @ ''/'' @ name"

definition example_ext ::
  "IPluginDescription list \<Rightarrow> IPluginDescription list \<Rightarrow> IPluginDescription list \<Rightarrow> externals" where
  "example_ext b u d =
     \<lparr>PluginScanner_scanPlugins = example_scanner b u,
      PluginScanner_scanOneOrMultiplePlugins = example_scanner d d,
      join_error = concat \<circ> map (case_option [] id),
      BUILTIN_PLUGINS_PATH = ''/builtin'',
      paths_join = example_join,
      pfs_fileExists = (\<lambda>path. True),
      pluginService_activateByEvent = (\<lambda>activationEvent. Fulfilled),
      nodeRequire = (\<lambda>path. Loaded True)\<rparr>"

definition scenario_builtin_a :: IPluginDescription where
  "scenario_builtin_a =
     \<lparr>plugin_id = ''a'', extensionFolderPath = ''/builtin/a'', activationEvents = None,
      manifest = []\<rparr>"

definition scenario_user_a :: IPluginDescription where
  "scenario_user_a =
     \<lparr>plugin_id = ''a'', extensionFolderPath = ''/user/a'', activationEvents = None,
      manifest = [(''extra'', ''1'')]\<rparr>"

definition proto_builtin :: IPluginDescription where
  "proto_builtin =
     \<lparr>plugin_id = ''__proto__'', extensionFolderPath = ''/builtin/p'', activationEvents = None,
      manifest = []\<rparr>"

definition proto_user :: IPluginDescription where
  "proto_user =
     \<lparr>plugin_id = ''__proto__'', extensionFolderPath = ''/user/p'', activationEvents = None,
      manifest = []\<rparr>"

definition has_own_builtin :: IPluginDescription where
  "has_own_builtin =
     \<lparr>plugin_id = ''hasOwnProperty'', extensionFolderPath = ''/builtin/h'',
      activationEvents = None, manifest = []\<rparr>"

definition proto_shadowing_builtin :: IPluginDescription where
  "proto_shadowing_builtin =
     \<lparr>plugin_id = ''__proto__'', extensionFolderPath = ''/builtin/p'', activationEvents = None,
      manifest = [(''hasOwnProperty'', ''1'')]\<rparr>"

text \<open>
  Descriptors that wait for \<^verbatim>\<open>package.json\<close>, a descriptor that waits for a file
  called \<^verbatim>\<open>__proto__\<close>, one that waits for the empty file name, and a workspace at
  \<^verbatim>\<open>/ws\<close> with no user, development or test path.
\<close>

definition package_watcher :: "string \<Rightarrow> IPluginDescription" where
  "package_watcher i =
     \<lparr>plugin_id = i, extensionFolderPath = ''/user/'' @ i,
      activationEvents = Some [''workspaceContains:package.json''], manifest = []\<rparr>"

definition proto_watcher :: IPluginDescription where
  "proto_watcher =
     \<lparr>plugin_id = ''d'', extensionFolderPath = ''/user/d'',
      activationEvents = Some [''workspaceContains:__proto__''], manifest = []\<rparr>"

definition empty_watcher :: IPluginDescription where
  "empty_watcher =
     \<lparr>plugin_id = ''e'', extensionFolderPath = ''/user/e'',
      activationEvents = Some [''workspaceContains:''], manifest = []\<rparr>"

definition example_env :: IEnvironment where
  "example_env =
     \<lparr>userPluginsHome = None, pluginDevelopmentPath = None, pluginTestsPath = None,
      version = ''1''\<rparr>"

definition example_ctx :: IWorkspaceContextService where
  "example_ctx =
     \<lparr>getWorkspace = Some \<lparr>resource = Some \<lparr>fsPath = ''/ws''\<rparr>\<rparr>,
      getConfiguration_env = example_env\<rparr>"

text \<open>
  The scenario of the spec with a test run (\<^verbatim>\<open>/t\<close> and \<^verbatim>\<open>/d\<close>) and no
  workspace, a workspace without a root resource, a test runner module without a
  \<^verbatim>\<open>run\<close> function, a built-in scan that is rejected, and activation promises that are
  rejected or still open when they are returned.
\<close>

definition test_env :: IEnvironment where
  "test_env =
     \<lparr>userPluginsHome = None, pluginDevelopmentPath = Some ''/d'', pluginTestsPath = Some ''/t'',
      version = ''1''\<rparr>"

definition test_ctx :: IWorkspaceContextService where
  "test_ctx = \<lparr>getWorkspace = None, getConfiguration_env = test_env\<rparr>"

definition test_init :: IInitData where
  "test_init = \<lparr>parentPid = 42, contextService = test_ctx\<rparr>"

definition rootless_ctx :: IWorkspaceContextService where
  "rootless_ctx = \<lparr>getWorkspace = Some \<lparr>resource = None\<rparr>, getConfiguration_env = example_env\<rparr>"

definition no_run_ext :: externals where
  "no_run_ext = (example_ext [] [] [])\<lparr>nodeRequire := (\<lambda>path. Loaded False)\<rparr>"

definition broken_scan_ext :: externals where
  "broken_scan_ext =
     (example_ext [] [] [])\<lparr>PluginScanner_scanPlugins := (\<lambda>v path builtin. ([], Inl ''EACCES''))\<rparr>"

definition rejecting_ext :: externals where
  "rejecting_ext =
     (example_ext [] [] [])\<lparr>pluginService_activateByEvent :=
        (\<lambda>activationEvent. Rejected ''activation failed'')\<rparr>"

definition pending_ext :: externals where
  "pending_ext =
     (example_ext [] [] [])\<lparr>pluginService_activateByEvent := (\<lambda>activationEvent. Pending)\<rparr>"

section \<open>The merge of \<^verbatim>\<open>scanPlugins\<close>\<close>

lemma last_with_id_append:
  "last_with_id i (ps @ qs) =
     (case last_with_id i qs of Some q \<Rightarrow> Some q | None \<Rightarrow> last_with_id i ps)"
  by (induction ps) (auto split: option.splits)

lemma last_with_id_Some: "last_with_id i ps = Some p \<Longrightarrow> p \<in> set ps \<and> plugin_id p = i"
  by (induction ps) (auto split: option.splits if_splits)

lemma last_with_id_None: "last_with_id i ps = None \<longleftrightarrow> i \<notin> plugin_id ` set ps"
  by (induction ps) (auto split: option.splits if_splits)

lemma winner_append: "winner i b u d = last_with_id i (b @ u @ d)"
  by (simp add: winner_def last_with_id_append split: option.splits)

lemma map_of_plugins_set:
  "k \<noteq> ''__proto__''
     \<Longrightarrow> map_of (own_properties (plugins_set p ob)) k =
           (if k = plugin_id p then Some p else map_of (own_properties ob) k)"
  by (auto simp: plugins_set_def update_conv')

lemma list_all_update:
  "list_all (\<lambda>(k, p). plugin_id p = k) m \<Longrightarrow> plugin_id p = k
     \<Longrightarrow> list_all (\<lambda>(k, p). plugin_id p = k) (AList.update k p m)"
  by (induction m) auto

lemma plugins_map_plugins_set:
  assumes "plugins_map ob" and "\<not> shadows_method p"
  shows "plugins_map (plugins_set p ob)"
proof (cases "plugin_id p = ''__proto__'' \<and> map_of (own_properties ob) ''__proto__'' = None
                \<and> \<not> inherits ob ''__proto__''")
  case True
  then have "plugins_set p ob = ob\<lparr>prototype := Some p\<rparr>"
    by (simp add: plugins_set_def)
  with assms True show ?thesis
    by (simp add: plugins_map_def inherits_def shadows_method_def)
next
  case False
  then have "plugins_set p ob
      = ob\<lparr>own_properties := AList.update (plugin_id p) p (own_properties ob)\<rparr>"
    unfolding plugins_set_def by (simp only: if_False)
  with assms show ?thesis
    by (auto simp: plugins_map_def inherits_def shadows_method_def distinct_update update_conv'
        list_all_update)
qed

lemma forEach_builtin_map:
  "plugins_map ob \<Longrightarrow> \<forall>p \<in> set b. \<not> shadows_method p
     \<Longrightarrow> plugins_map (forEach_builtin b ob)
         \<and> (\<forall>i. i \<noteq> ''__proto__'' \<longrightarrow>
               map_of (own_properties (forEach_builtin b ob)) i =
                 (case last_with_id i b of
                    Some p \<Rightarrow> Some p | None \<Rightarrow> map_of (own_properties ob) i))"
proof (induction b arbitrary: ob)
  case Nil
  then show ?case by simp
next
  case (Cons p b)
  have pm: "plugins_map (plugins_set p ob)"
    using Cons.prems by (intro plugins_map_plugins_set) auto
  have rest: "\<forall>q \<in> set b. \<not> shadows_method q"
    using Cons.prems by auto
  from Cons.IH [OF pm rest] show ?case
    by (auto simp: map_of_plugins_set split: option.splits)
qed

lemma holder_Nil [simp]: "holder m [] i = map_of m i"
  by (simp add: holder_def)

lemma holder_Cons:
  "i \<noteq> ''__proto__''
     \<Longrightarrow> holder (own_properties ob) (p # ps) i = holder (own_properties (plugins_set p ob)) ps i"
  by (auto simp: holder_def map_of_plugins_set split: option.splits)

lemma warn_and_store_ok:
  assumes "plugins_map ob"
  shows "warn_and_store p c ob =
           (c @ (case map_of (own_properties ob) (plugin_id p) of
                   Some old \<Rightarrow> [overwrite_warning old p] | None \<Rightarrow> []),
            Inr (plugins_set p ob))"
proof -
  have h: "map_of (own_properties ob) ''hasOwnProperty'' = None"
    "\<not> inherits ob ''hasOwnProperty''"
    using assms by (simp_all add: plugins_map_def)
  show ?thesis
  proof (cases "map_of (own_properties ob) (plugin_id p)")
    case None
    then show ?thesis
      by (simp add: warn_and_store_def hasOwnProperty_def h)
  next
    case (Some old)
    then show ?thesis
      by (simp add: warn_and_store_def hasOwnProperty_def h obj_get_def collector_warn_def
          collector_msg_def overwrite_warning_def)
  qed
qed

lemma forEach_user_ok:
  assumes "plugins_map ob" and "\<forall>p \<in> set u. \<not> shadows_method p"
  shows "\<exists>c2 ob'. forEach_user u c ob = (c @ c2, Inr ob') \<and> plugins_map ob'
           \<and> (\<forall>i. i \<noteq> ''__proto__'' \<longrightarrow>
                 map_of (own_properties ob') i = holder (own_properties ob) u i)
           \<and> (\<forall>j<length u. \<forall>old. plugin_id (u ! j) \<noteq> ''__proto__''
                 \<longrightarrow> holder (own_properties ob) (take j u) (plugin_id (u ! j)) = Some old
                 \<longrightarrow> overwrite_warning old (u ! j) \<in> set c2)"
  using assms
proof (induction u arbitrary: c ob)
  case Nil
  then show ?case by simp
next
  case (Cons p u)
  let ?m1 = "plugins_set p ob"
  let ?w = "case map_of (own_properties ob) (plugin_id p) of
              Some old \<Rightarrow> [overwrite_warning old p] | None \<Rightarrow> []"
  have nh: "\<not> shadows_method p" and rest: "\<forall>q \<in> set u. \<not> shadows_method q"
    using Cons.prems by auto
  have step: "warn_and_store p c ob = (c @ ?w, Inr ?m1)"
    by (rule warn_and_store_ok [OF Cons.prems(1)])
  have pm: "plugins_map ?m1"
    by (rule plugins_map_plugins_set [OF Cons.prems(1) nh])
  from Cons.IH [OF pm rest, of "c @ ?w"]
  obtain c2 ob' where run: "forEach_user u (c @ ?w) ?m1 = ((c @ ?w) @ c2, Inr ob')"
    and pm': "plugins_map ob'"
    and look: "\<forall>i. i \<noteq> ''__proto__'' \<longrightarrow>
                 map_of (own_properties ob') i = holder (own_properties ?m1) u i"
    and warn: "\<forall>j<length u. \<forall>old. plugin_id (u ! j) \<noteq> ''__proto__''
                 \<longrightarrow> holder (own_properties ?m1) (take j u) (plugin_id (u ! j)) = Some old
                 \<longrightarrow> overwrite_warning old (u ! j) \<in> set c2"
    by blast
  have eq: "forEach_user (p # u) c ob = (c @ (?w @ c2), Inr ob')"
    using step run by simp
  have look': "\<forall>i. i \<noteq> ''__proto__'' \<longrightarrow>
                 map_of (own_properties ob') i = holder (own_properties ob) (p # u) i"
    using look by (simp add: holder_Cons)
  have warn': "overwrite_warning old ((p # u) ! j) \<in> set (?w @ c2)"
    if j: "j < length (p # u)" and np: "plugin_id ((p # u) ! j) \<noteq> ''__proto__''"
      and h: "holder (own_properties ob) (take j (p # u)) (plugin_id ((p # u) ! j)) = Some old"
    for j old
  proof (cases j)
    case 0
    with h show ?thesis by simp
  next
    case (Suc k)
    with j np h have "k < length u" "plugin_id (u ! k) \<noteq> ''__proto__''"
      "holder (own_properties ?m1) (take k u) (plugin_id (u ! k)) = Some old"
      by (simp_all add: holder_Cons)
    with warn Suc show ?thesis by simp
  qed
  show ?case
    using eq pm' look' warn' by blast
qed

lemma forEach_dev_ok:
  assumes "plugins_map ob" and "\<forall>p \<in> set d. \<not> shadows_method p"
  shows "\<exists>c2 ob'. forEach_dev d c ob = (c @ c2, Inr ob') \<and> plugins_map ob'
           \<and> (\<forall>i. i \<noteq> ''__proto__'' \<longrightarrow>
                 map_of (own_properties ob') i = holder (own_properties ob) d i)
           \<and> (\<forall>j<length d. \<forall>old. plugin_id (d ! j) \<noteq> ''__proto__''
                 \<longrightarrow> holder (own_properties ob) (take j d) (plugin_id (d ! j)) = Some old
                 \<longrightarrow> overwrite_warning old (d ! j) \<in> set c2)
           \<and> (\<forall>p \<in> set d. development_info p \<in> set c2)"
  using assms
proof (induction d arbitrary: c ob)
  case Nil
  then show ?case by simp
next
  case (Cons p d)
  let ?m1 = "plugins_set p ob"
  let ?c1 = "c @ [development_info p]"
  let ?w = "case map_of (own_properties ob) (plugin_id p) of
              Some old \<Rightarrow> [overwrite_warning old p] | None \<Rightarrow> []"
  have nh: "\<not> shadows_method p" and rest: "\<forall>q \<in> set d. \<not> shadows_method q"
    using Cons.prems by auto
  have info: "collector_info [] (loading_development p) c = ?c1"
    by (simp add: collector_info_def collector_msg_def development_info_def)
  have step: "warn_and_store p ?c1 ob = (?c1 @ ?w, Inr ?m1)"
    by (rule warn_and_store_ok [OF Cons.prems(1)])
  have pm: "plugins_map ?m1"
    by (rule plugins_map_plugins_set [OF Cons.prems(1) nh])
  from Cons.IH [OF pm rest, of "?c1 @ ?w"]
  obtain c2 ob' where run: "forEach_dev d (?c1 @ ?w) ?m1 = ((?c1 @ ?w) @ c2, Inr ob')"
    and pm': "plugins_map ob'"
    and look: "\<forall>i. i \<noteq> ''__proto__'' \<longrightarrow>
                 map_of (own_properties ob') i = holder (own_properties ?m1) d i"
    and warn: "\<forall>j<length d. \<forall>old. plugin_id (d ! j) \<noteq> ''__proto__''
                 \<longrightarrow> holder (own_properties ?m1) (take j d) (plugin_id (d ! j)) = Some old
                 \<longrightarrow> overwrite_warning old (d ! j) \<in> set c2"
    and infos: "\<forall>q \<in> set d. development_info q \<in> set c2"
    by blast
  have eq: "forEach_dev (p # d) c ob = (c @ ([development_info p] @ ?w @ c2), Inr ob')"
    using step run info by simp
  have look': "\<forall>i. i \<noteq> ''__proto__'' \<longrightarrow>
                 map_of (own_properties ob') i = holder (own_properties ob) (p # d) i"
    using look by (simp add: holder_Cons)
  have warn': "overwrite_warning old ((p # d) ! j) \<in> set ([development_info p] @ ?w @ c2)"
    if j: "j < length (p # d)" and np: "plugin_id ((p # d) ! j) \<noteq> ''__proto__''"
      and h: "holder (own_properties ob) (take j (p # d)) (plugin_id ((p # d) ! j)) = Some old"
    for j old
  proof (cases j)
    case 0
    with h show ?thesis by simp
  next
    case (Suc k)
    with j np h have "k < length d" "plugin_id (d ! k) \<noteq> ''__proto__''"
      "holder (own_properties ?m1) (take k d) (plugin_id (d ! k)) = Some old"
      by (simp_all add: holder_Cons)
    with warn Suc show ?thesis by simp
  qed
  have infos': "\<forall>q \<in> set (p # d). development_info q \<in> set ([development_info p] @ ?w @ c2)"
    using infos by auto
  show ?case
    using eq pm' look' warn' infos' by blast
qed

lemma set_Object_keys: "set (Object_keys m) = fst ` set m"
  by (auto simp: Object_keys_def Let_def)

lemma distinct_Object_keys: "distinct (map fst m) \<Longrightarrow> distinct (Object_keys m)"
  by (auto simp: Object_keys_def Let_def)

lemma mset_Object_keys: "mset (Object_keys m) = mset (map fst m)"
  by (simp add: Object_keys_def Let_def)

lemma stored_under_id:
  "list_all (\<lambda>(k, p). plugin_id p = k) m \<Longrightarrow> map_of m k = Some p \<Longrightarrow> plugin_id p = k"
  by (auto simp: list_all_iff dest!: map_of_SomeD)

lemma values_with_id:
  assumes "list_all (\<lambda>(k, p). plugin_id p = k) m" and "distinct ks" and "set ks \<subseteq> fst ` set m"
  shows "filter (\<lambda>p. plugin_id p = i) (List.map_filter (obj_get m) ks) =
           (if i \<in> set ks then (case map_of m i of Some p \<Rightarrow> [p] | None \<Rightarrow> []) else [])"
  using assms(2,3)
proof (induction ks)
  case Nil
  then show ?case by (simp add: map_filter_simps)
next
  case (Cons k ks)
  then obtain p where p: "map_of m k = Some p"
    by (cases "map_of m k") (auto simp: map_of_eq_None_iff)
  then have "plugin_id p = k"
    using assms(1) by (rule stored_under_id [rotated])
  with Cons p show ?case
    by (auto simp: map_filter_simps obj_get_def)
qed

lemma values_of_plugins_map:
  assumes "plugins_map ob"
  shows "filter (\<lambda>p. plugin_id p = i)
           (List.map_filter (obj_get (own_properties ob)) (Object_keys (own_properties ob))) =
           (case map_of (own_properties ob) i of Some p \<Rightarrow> [p] | None \<Rightarrow> [])"
proof -
  have ids: "list_all (\<lambda>(k, p). plugin_id p = k) (own_properties ob)"
    and "distinct (Object_keys (own_properties ob))"
    using assms by (simp_all add: plugins_map_def distinct_Object_keys)
  from values_with_id [OF ids this(2), of i] show ?thesis
    by (auto simp: set_Object_keys map_of_eq_None_iff [symmetric] split: option.splits)
qed

lemma plugins_map_empty: "plugins_map \<lparr>own_properties = [], prototype = None\<rparr>"
  by (simp add: plugins_map_def inherits_def)

lemma mergePlugins_ok:
  assumes "\<forall>p \<in> set (b @ u @ d). \<not> shadows_method p"
  shows "\<exists>c2 result. mergePlugins c b u d = (c @ c2, Inr result)
           \<and> (\<forall>i. i \<noteq> ''__proto__'' \<longrightarrow>
                 filter (\<lambda>p. plugin_id p = i) result =
                   (case winner i b u d of None \<Rightarrow> [] | Some p \<Rightarrow> [p]))
           \<and> (\<forall>j<length u. \<forall>old. plugin_id (u ! j) \<noteq> ''__proto__''
                 \<longrightarrow> last_with_id (plugin_id (u ! j)) (b @ take j u) = Some old
                 \<longrightarrow> overwrite_warning old (u ! j) \<in> set c2)
           \<and> (\<forall>j<length d. \<forall>old. plugin_id (d ! j) \<noteq> ''__proto__''
                 \<longrightarrow> last_with_id (plugin_id (d ! j)) (b @ u @ take j d) = Some old
                 \<longrightarrow> overwrite_warning old (d ! j) \<in> set c2)
           \<and> (\<forall>p \<in> set d. development_info p \<in> set c2)"
proof -
  let ?e = "\<lparr>own_properties = [], prototype = None\<rparr>"
  let ?m0 = "forEach_builtin b ?e"
  have hb: "\<forall>p \<in> set b. \<not> shadows_method p"
    and hu: "\<forall>p \<in> set u. \<not> shadows_method p"
    and hd: "\<forall>p \<in> set d. \<not> shadows_method p"
    using assms by auto
  from forEach_builtin_map [OF plugins_map_empty hb]
  have pm0: "plugins_map ?m0"
    and look0: "\<And>i. i \<noteq> ''__proto__'' \<Longrightarrow> map_of (own_properties ?m0) i = last_with_id i b"
    by (auto split: option.splits)
  from forEach_user_ok [OF pm0 hu, of c]
  obtain c1 m1 where run1: "forEach_user u c ?m0 = (c @ c1, Inr m1)"
    and pm1: "plugins_map m1"
    and look1: "\<forall>i. i \<noteq> ''__proto__'' \<longrightarrow>
                  map_of (own_properties m1) i = holder (own_properties ?m0) u i"
    and warn1: "\<forall>j<length u. \<forall>old. plugin_id (u ! j) \<noteq> ''__proto__''
                 \<longrightarrow> holder (own_properties ?m0) (take j u) (plugin_id (u ! j)) = Some old
                 \<longrightarrow> overwrite_warning old (u ! j) \<in> set c1"
    by blast
  from forEach_dev_ok [OF pm1 hd, of "c @ c1"]
  obtain c2 m2 where run2: "forEach_dev d (c @ c1) m1 = ((c @ c1) @ c2, Inr m2)"
    and pm2: "plugins_map m2"
    and look2: "\<forall>i. i \<noteq> ''__proto__'' \<longrightarrow>
                  map_of (own_properties m2) i = holder (own_properties m1) d i"
    and warn2: "\<forall>j<length d. \<forall>old. plugin_id (d ! j) \<noteq> ''__proto__''
                 \<longrightarrow> holder (own_properties m1) (take j d) (plugin_id (d ! j)) = Some old
                 \<longrightarrow> overwrite_warning old (d ! j) \<in> set c2"
    and infos: "\<forall>p \<in> set d. development_info p \<in> set c2"
    by blast
  let ?result = "List.map_filter (obj_get (own_properties m2)) (Object_keys (own_properties m2))"
  have eq: "mergePlugins c b u d = (c @ (c1 @ c2), Inr ?result)"
    using run1 run2 by (simp add: mergePlugins_def)
  have h0: "holder (own_properties ?m0) ps i = last_with_id i (b @ ps)"
    if "i \<noteq> ''__proto__''" for ps i
    using that look0 [of i]
    by (simp add: holder_def last_with_id_append split: option.splits)
  have h1: "holder (own_properties m1) ps i = last_with_id i (b @ u @ ps)"
    if "i \<noteq> ''__proto__''" for ps i
    using that look1 h0 [of i u]
    by (simp add: holder_def last_with_id_append split: option.splits)
  have final: "map_of (own_properties m2) i = winner i b u d" if "i \<noteq> ''__proto__''" for i
    using that look2 h1 [of i d] by (simp add: winner_append)
  have res: "\<forall>i. i \<noteq> ''__proto__'' \<longrightarrow>
               filter (\<lambda>p. plugin_id p = i) ?result =
                 (case winner i b u d of None \<Rightarrow> [] | Some p \<Rightarrow> [p])"
    using values_of_plugins_map [OF pm2] final by (auto split: option.splits)
  have w1: "\<forall>j<length u. \<forall>old. plugin_id (u ! j) \<noteq> ''__proto__''
              \<longrightarrow> last_with_id (plugin_id (u ! j)) (b @ take j u) = Some old
              \<longrightarrow> overwrite_warning old (u ! j) \<in> set (c1 @ c2)"
    using warn1 h0 by auto
  have w2: "\<forall>j<length d. \<forall>old. plugin_id (d ! j) \<noteq> ''__proto__''
              \<longrightarrow> last_with_id (plugin_id (d ! j)) (b @ u @ take j d) = Some old
              \<longrightarrow> overwrite_warning old (d ! j) \<in> set (c1 @ c2)"
    using warn2 h1 by auto
  have i2: "\<forall>p \<in> set d. development_info p \<in> set (c1 @ c2)"
    using infos by auto
  show ?thesis
    using eq res w1 w2 i2 by blast
qed

text \<open>
  The merge on ids that an object literal keeps as ordinary keys.  When the three scans
  succeed and no scanned descriptor shadows the method \<^verbatim>\<open>hasOwnProperty\<close>,
  \<^verbatim>\<open>scanPlugins\<close> succeeds, and for every id other than \<^verbatim>\<open>__proto__\<close> its result
  holds exactly the descriptor of the highest source that lists the id (development
  before user before built-in; the last one listed there) and none when no source lists
  it.  Each user or development descriptor that replaces an entry is reported by a
  warning that names the replaced entry's folder and its own, and each development
  descriptor by an informational diagnostic.
\<close>

theorem scanPlugins_precedence:
  assumes run: "scanPlugins ext c builtinPath userPath devPath v w = ((msgs, outcome), w')"
    and b: "snd (PluginScanner_scanPlugins ext v builtinPath True) = Inr b"
    and u: "snd (scan_if_given (\<lambda>p. PluginScanner_scanPlugins ext v p False) userPath) = Inr u"
    and d: "snd (scan_if_given (\<lambda>p. PluginScanner_scanOneOrMultiplePlugins ext v p False)
                   devPath) = Inr d"
    and h: "\<forall>p \<in> set (b @ u @ d). \<not> shadows_method p"
  shows "\<exists>result. outcome = Inr result
           \<and> (\<forall>i. i \<noteq> ''__proto__'' \<longrightarrow>
                 filter (\<lambda>p. plugin_id p = i) result =
                   (case winner i b u d of None \<Rightarrow> [] | Some p \<Rightarrow> [p]))
           \<and> (\<forall>j<length u. \<forall>old. plugin_id (u ! j) \<noteq> ''__proto__''
                 \<longrightarrow> last_with_id (plugin_id (u ! j)) (b @ take j u) = Some old
                 \<longrightarrow> overwrite_warning old (u ! j) \<in> set msgs)
           \<and> (\<forall>j<length d. \<forall>old. plugin_id (d ! j) \<noteq> ''__proto__''
                 \<longrightarrow> last_with_id (plugin_id (d ! j)) (b @ u @ take j d) = Some old
                 \<longrightarrow> overwrite_warning old (d ! j) \<in> set msgs)
           \<and> (\<forall>p \<in> set d. development_info p \<in> set msgs)"
proof -
  obtain m0 where s0: "PluginScanner_scanPlugins ext v builtinPath True = (m0, Inr b)"
    using b by (cases "PluginScanner_scanPlugins ext v builtinPath True") simp
  obtain m1 where s1:
    "scan_if_given (\<lambda>p. PluginScanner_scanPlugins ext v p False) userPath = (m1, Inr u)"
    using u by (cases "scan_if_given (\<lambda>p. PluginScanner_scanPlugins ext v p False) userPath") simp
  obtain m2 where s2:
    "scan_if_given (\<lambda>p. PluginScanner_scanOneOrMultiplePlugins ext v p False) devPath
       = (m2, Inr d)"
    using d
    by (cases "scan_if_given (\<lambda>p. PluginScanner_scanOneOrMultiplePlugins ext v p False) devPath")
      simp
  from mergePlugins_ok [OF h, of "c @ m0 @ m1 @ m2"]
  obtain c2 result where merge: "mergePlugins (c @ m0 @ m1 @ m2) b u d
        = ((c @ m0 @ m1 @ m2) @ c2, Inr result)"
    and props: "(\<forall>i. i \<noteq> ''__proto__'' \<longrightarrow>
                 filter (\<lambda>p. plugin_id p = i) result =
                   (case winner i b u d of None \<Rightarrow> [] | Some p \<Rightarrow> [p]))"
       "(\<forall>j<length u. \<forall>old. plugin_id (u ! j) \<noteq> ''__proto__''
                 \<longrightarrow> last_with_id (plugin_id (u ! j)) (b @ take j u) = Some old
                 \<longrightarrow> overwrite_warning old (u ! j) \<in> set c2)"
       "(\<forall>j<length d. \<forall>old. plugin_id (d ! j) \<noteq> ''__proto__''
                 \<longrightarrow> last_with_id (plugin_id (d ! j)) (b @ u @ take j d) = Some old
                 \<longrightarrow> overwrite_warning old (d ! j) \<in> set c2)"
       "(\<forall>p \<in> set d. development_info p \<in> set c2)"
    by blast
  have "msgs = (c @ m0 @ m1 @ m2) @ c2" and "outcome = Inr result"
    using run s0 s1 s2 merge by (simp_all add: scanPlugins_def)
  with props show ?thesis
    by auto
qed

text \<open>
  The scenario of the spec: the built-in scan finds \<open>a\<close>, the user scan finds \<open>a\<close> with
  an extra manifest entry.
\<close>

theorem scanPlugins_precedence_witness:
  "\<exists>result.
     snd (fst (scanPlugins (example_ext [scenario_builtin_a] [scenario_user_a] []) []
                 ''/builtin'' (Some ''/user'') None ''1'' boot)) = Inr result
     \<and> filter (\<lambda>p. plugin_id p = ''a'') result = [scenario_user_a]
     \<and> overwrite_warning scenario_builtin_a scenario_user_a
         \<in> set (fst (fst (scanPlugins (example_ext [scenario_builtin_a] [scenario_user_a] []) []
                            ''/builtin'' (Some ''/user'') None ''1'' boot)))"
proof -
  let ?ext = "example_ext [scenario_builtin_a] [scenario_user_a] []"
  let ?r = "scanPlugins ?ext [] ''/builtin'' (Some ''/user'') None ''1'' boot"
  have run: "?r = ((fst (fst ?r), snd (fst ?r)), snd ?r)"
    by simp
  have b: "snd (PluginScanner_scanPlugins ?ext ''1'' ''/builtin'' True) = Inr [scenario_builtin_a]"
    by (simp add: example_ext_def example_scanner_def)
  have u: "snd (scan_if_given (\<lambda>p. PluginScanner_scanPlugins ?ext ''1'' p False) (Some ''/user''))
             = Inr [scenario_user_a]"
    by (simp add: example_ext_def example_scanner_def scan_if_given_def)
  have d: "snd (scan_if_given (\<lambda>p. PluginScanner_scanOneOrMultiplePlugins ?ext ''1'' p False) None)
             = Inr []"
    by (simp add: scan_if_given_def)
  have h: "\<forall>p \<in> set ([scenario_builtin_a] @ [scenario_user_a] @ []). \<not> shadows_method p"
    by (simp add: scenario_builtin_a_def scenario_user_a_def shadows_method_def)
  from scanPlugins_precedence [OF run b u d h]
  obtain result where res: "snd (fst ?r) = Inr result"
    and one: "\<forall>i. i \<noteq> ''__proto__'' \<longrightarrow>
                 filter (\<lambda>p. plugin_id p = i) result =
                   (case winner i [scenario_builtin_a] [scenario_user_a] [] of
                      None \<Rightarrow> [] | Some p \<Rightarrow> [p])"
    and warn: "\<forall>j<length [scenario_user_a]. \<forall>old. plugin_id ([scenario_user_a] ! j) \<noteq> ''__proto__''
                 \<longrightarrow> last_with_id (plugin_id ([scenario_user_a] ! j))
                       ([scenario_builtin_a] @ take j [scenario_user_a]) = Some old
                 \<longrightarrow> overwrite_warning old ([scenario_user_a] ! j) \<in> set (fst (fst ?r))"
    by blast
  from one have "filter (\<lambda>p. plugin_id p = ''a'') result = [scenario_user_a]"
    by (simp add: winner_def scenario_builtin_a_def scenario_user_a_def)
  moreover from warn [rule_format, of 0 scenario_builtin_a]
  have "overwrite_warning scenario_builtin_a scenario_user_a \<in> set (fst (fst ?r))"
    by (simp add: scenario_builtin_a_def scenario_user_a_def)
  ultimately show ?thesis
    using res by blast
qed

text \<open>
  C1.  The built-in scan and the user scan each list one descriptor with the id
  \<^verbatim>\<open>__proto__\<close>.  The id appears in two scanned sources, so the result should hold
  the user descriptor and the collector a warning that names \<^verbatim>\<open>/builtin/p\<close> and
  \<^verbatim>\<open>/user/p\<close>.  The code returns no descriptor at all and reports nothing: both
  assignments \<^verbatim>\<open>resultingPluginsMap['__proto__'] = ...\<close> replace the prototype of the
  object literal, none creates an own property, \<^verbatim>\<open>hasOwnProperty('__proto__')\<close> is
  false and \<^verbatim>\<open>Object.keys\<close> is empty.
\<close>

theorem scanPlugins_loses_proto_id:
  "plugin_id proto_builtin = ''__proto__'' \<and> plugin_id proto_user = ''__proto__''
   \<and> snd (PluginScanner_scanPlugins (example_ext [proto_builtin] [proto_user] []) ''1''
            ''/builtin'' True) = Inr [proto_builtin]
   \<and> snd (PluginScanner_scanPlugins (example_ext [proto_builtin] [proto_user] []) ''1''
            ''/user'' False) = Inr [proto_user]
   \<and> winner ''__proto__'' [proto_builtin] [proto_user] [] = Some proto_user
   \<and> fst (scanPlugins (example_ext [proto_builtin] [proto_user] []) []
            ''/builtin'' (Some ''/user'') None ''1'' boot) = ([], Inr [])"
  by (simp add: proto_builtin_def proto_user_def example_ext_def example_scanner_def
      scanPlugins_def scan_if_given_def mergePlugins_def plugins_set_def warn_and_store_def
      hasOwnProperty_def inherits_def has_member_def member_names_def winner_def
      Object_keys_def map_filter_simps)

text \<open>
  The method \<^verbatim>\<open>hasOwnProperty\<close> is shadowed in two ways, and then the next call of
  \<^verbatim>\<open>resultingPluginsMap.hasOwnProperty\<close> throws and the scan as a whole is rejected: by
  a built-in descriptor with the id \<^verbatim>\<open>hasOwnProperty\<close>, and by a built-in descriptor
  with the id \<^verbatim>\<open>__proto__\<close> whose manifest has an entry of that name.
\<close>

lemma scanPlugins_hasOwnProperty_id_throws:
  "fst (scanPlugins (example_ext [has_own_builtin] [scenario_user_a] []) []
          ''/builtin'' (Some ''/user'') None ''1'' boot) =
     ([], Inl ''TypeError: resultingPluginsMap.hasOwnProperty is not a function'')"
  by (simp add: has_own_builtin_def scenario_user_a_def example_ext_def example_scanner_def
      scanPlugins_def scan_if_given_def mergePlugins_def plugins_set_def warn_and_store_def
      hasOwnProperty_def inherits_def)

lemma scanPlugins_proto_member_throws:
  "fst (scanPlugins (example_ext [proto_shadowing_builtin] [scenario_user_a] []) []
          ''/builtin'' (Some ''/user'') None ''1'' boot) =
     ([], Inl ''TypeError: resultingPluginsMap.hasOwnProperty is not a function'')"
  by (simp add: proto_shadowing_builtin_def scenario_user_a_def example_ext_def
      example_scanner_def scanPlugins_def scan_if_given_def mergePlugins_def plugins_set_def
      warn_and_store_def hasOwnProperty_def inherits_def has_member_def member_names_def)

section \<open>Eager activation by \<^verbatim>\<open>workspaceContains\<close>\<close>

lemma trace_emit [simp]: "trace (emit e w) = trace w @ [e]"
  by (simp add: emit_def)

lemma registry_emit [simp]: "registry (emit e w) = registry w"
  by (simp add: emit_def)

lemma trace_activateByEvent:
  "trace (activateByEvent ext ev w) = trace w @ activation_events ext ev"
  by (simp add: activateByEvent_def activation_events_def Let_def split: promise_state.splits)

lemma registry_activateByEvent [simp]: "registry (activateByEvent ext ev w) = registry w"
  by (simp add: activateByEvent_def Let_def split: promise_state.splits)

lemma trace_fold_emit: "trace (fold (\<lambda>x. emit (g x)) xs w) = trace w @ map g xs"
  by (induction xs arbitrary: w) simp_all

lemma trace_activate_existing:
  "trace (activate_existing ext r w) = trace w @ existing_events ext r"
  by (simp add: activate_existing_def existing_events_def trace_activateByEvent
      split: option.splits)

lemma trace_fold_activate_existing:
  "trace (fold (activate_existing ext) rs w) = trace w @ concat (map (existing_events ext) rs)"
  by (induction rs arbitrary: w) (simp_all add: trace_activate_existing)

lemma requested_activation_events [simp]:
  "List.map_filter requested_activation (activation_events ext ev) = [ev]"
  by (simp add: activation_events_def map_filter_simps split: promise_state.splits)

lemma map_filter_append: "List.map_filter f (xs @ ys) = List.map_filter f xs @ List.map_filter f ys"
  by (simp add: map_filter_def)

lemma checked_activation_events [simp]:
  "List.map_filter checked_name (activation_events ext ev) = []"
  by (simp add: activation_events_def map_filter_simps split: promise_state.splits)

lemma requested_of_existing:
  "List.map_filter requested_activation
     (concat (map (\<lambda>f. existing_events ext (fileExistsWithResult ext (g f) f)) ks)) =
   map (\<lambda>f. ''workspaceContains:'' @ f) (filter (\<lambda>f. f \<noteq> [] \<and> pfs_fileExists ext (g f)) ks)"
  by (induction ks)
    (simp_all add: map_filter_simps map_filter_append existing_events_def fileExistsWithResult_def)

lemma checked_of_existing:
  "List.map_filter checked_name
     (concat (map (\<lambda>f. existing_events ext (fileExistsWithResult ext (g f) f)) ks)) = []"
  by (induction ks)
    (simp_all add: map_filter_simps map_filter_append existing_events_def fileExistsWithResult_def)

lemma requested_of_checks:
  "List.map_filter requested_activation (map (\<lambda>f. FileExistsWithResult (g f) f) ks) = []"
  by (induction ks) (simp_all add: map_filter_simps)

lemma checked_of_checks:
  "List.map_filter checked_name (map (\<lambda>f. FileExistsWithResult (g f) f) ks) = ks"
  by (induction ks) (simp_all add: map_filter_simps)

lemma is_workspaceContains_iff:
  "is_workspaceContains ev \<longleftrightarrow> (\<exists>f. ev = ''workspaceContains:'' @ f)"
proof
  assume "is_workspaceContains ev"
  then have "ev = ''workspaceContains:'' @ drop (length ''workspaceContains:'') ev"
    unfolding is_workspaceContains_def by (metis append_take_drop_id)
  then show "\<exists>f. ev = ''workspaceContains:'' @ f" ..
next
  assume "\<exists>f. ev = ''workspaceContains:'' @ f"
  then show "is_workspaceContains ev"
    by (auto simp: is_workspaceContains_def)
qed

lemma keys_obj_set:
  "fst ` set (obj_set k v m) = (if k = ''__proto__'' then {} else {k}) \<union> fst ` set m"
  by (simp add: obj_set_def dom_update)

lemma distinct_obj_set: "distinct (map fst m) \<Longrightarrow> distinct (map fst (obj_set k v m))"
  by (simp add: obj_set_def distinct_update)

lemma desired_of_events_keys:
  "distinct (map fst m) \<Longrightarrow>
   distinct (map fst (desired_of_events evs m)) \<and>
   fst ` set (desired_of_events evs m) =
     fst ` set m \<union> {f. f \<noteq> ''__proto__'' \<and> ''workspaceContains:'' @ f \<in> set evs}"
proof (induction evs arbitrary: m)
  case Nil
  then show ?case by simp
next
  case (Cons ev evs)
  show ?case
  proof (cases "is_workspaceContains ev")
    case True
    then obtain f where ev: "ev = ''workspaceContains:'' @ f"
      by (auto simp: is_workspaceContains_iff)
    have step: "desired_of_events (ev # evs) m = desired_of_events evs (obj_set f True m)"
      by (simp add: ev)
    from Cons.IH [OF distinct_obj_set [OF Cons.prems], of f True]
    show ?thesis
      unfolding step by (auto simp: keys_obj_set ev split: if_splits)
  next
    case False
    then have step: "desired_of_events (ev # evs) m = desired_of_events evs m"
      by (simp add: is_workspaceContains_def)
    have "\<And>f. ev \<noteq> ''workspaceContains:'' @ f"
      using False by (auto simp: is_workspaceContains_iff)
    with Cons.IH [OF Cons.prems] show ?thesis
      unfolding step by auto
  qed
qed

lemma desiredFiles_keys:
  "distinct (map fst m) \<Longrightarrow>
   distinct (map fst (desiredFiles ds m)) \<and>
   fst ` set (desiredFiles ds m) =
     fst ` set m \<union>
       {f. f \<noteq> ''__proto__'' \<and> (\<exists>desc \<in> set ds. declares desc (''workspaceContains:'' @ f))}"
proof (induction ds arbitrary: m)
  case Nil
  then show ?case by simp
next
  case (Cons desc ds)
  show ?case
  proof (cases "activationEvents desc")
    case None
    with Cons.IH [OF Cons.prems] show ?thesis
      by (auto simp: declares_def)
  next
    case (Some evs)
    from desired_of_events_keys [OF Cons.prems, of evs]
    have d: "distinct (map fst (desired_of_events evs m))"
      and k: "fst ` set (desired_of_events evs m) =
               fst ` set m \<union> {f. f \<noteq> ''__proto__'' \<and> ''workspaceContains:'' @ f \<in> set evs}"
      by auto
    from Cons.IH [OF d] show ?thesis
      by (auto simp: Some k declares_def)
  qed
qed

lemma count_list_distinct: "distinct xs \<Longrightarrow> x \<in> set xs \<Longrightarrow> count_list xs x = 1"
  by (induction xs) auto

lemma count_list_filter: "count_list (filter P xs) x = (if P x then count_list xs x else 0)"
  by (induction xs) auto

lemma count_list_prefixed:
  "count_list (map (\<lambda>f. ''workspaceContains:'' @ f) xs) (''workspaceContains:'' @ x)
     = count_list xs x"
  by (induction xs) auto

lemma desired_keys_distinct: "distinct (desired_keys w)"
  using desiredFiles_keys [of "[]" "registry w"]
  by (simp add: desired_keys_def getAllPluginDescriptions_def distinct_Object_keys)

lemma desired_keys_set:
  "set (desired_keys w) =
     {f. f \<noteq> ''__proto__'' \<and> (\<exists>desc \<in> set (registry w). declares desc (''workspaceContains:'' @ f))}"
  using desiredFiles_keys [of "[]" "registry w"]
  by (simp add: desired_keys_def getAllPluginDescriptions_def set_Object_keys)

lemma handleWorkspaceContains_trace:
  assumes "getWorkspace ctx = Some ws" and "resource ws = Some uri"
  shows "trace (snd (handleWorkspaceContainsEagerPlugins ext ctx w)) =
           trace w
           @ map (\<lambda>f. FileExistsWithResult (paths_join ext (fsPath uri) f) f) (desired_keys w)
           @ concat (map (\<lambda>f. existing_events ext
                                 (fileExistsWithResult ext (paths_join ext (fsPath uri) f) f))
                       (desired_keys w))"
  using assms
  by (simp add: handleWorkspaceContainsEagerPlugins_def Let_def trace_fold_activate_existing
      trace_fold_emit desired_keys_def comp_def)

lemma desired_keys_activateByEvent [simp]:
  "desired_keys (activateByEvent ext ev w) = desired_keys w"
  by (simp add: desired_keys_def getAllPluginDescriptions_def)

lemma handleEagerPlugins_trace:
  assumes "getWorkspace ctx = Some ws" and "resource ws = Some uri"
  shows "trace (snd (handleEagerPlugins ext ctx w)) =
           trace w @ activation_events ext ''*''
           @ map (\<lambda>f. FileExistsWithResult (paths_join ext (fsPath uri) f) f) (desired_keys w)
           @ concat (map (\<lambda>f. existing_events ext
                                 (fileExistsWithResult ext (paths_join ext (fsPath uri) f) f))
                       (desired_keys w))"
  by (simp add: handleEagerPlugins_def handleWorkspaceContains_trace [OF assms]
      trace_activateByEvent)

text \<open>
  The eager stage on file names that an object literal keeps as ordinary keys.  In a
  workspace with a root folder, let a registered descriptor declare
  \<^verbatim>\<open>workspaceContains:f\<close> with \<open>f\<close> other than \<^verbatim>\<open>__proto__\<close>.  Then the stage
  performs exactly one existence check for \<open>f\<close>, on the path joined from the root and
  \<open>f\<close>, and it issues exactly one activation request for \<^verbatim>\<open>workspaceContains:f\<close> when
  \<open>f\<close> is not empty and the file exists, and none otherwise, however many descriptors
  declare the event.
\<close>

theorem workspaceContains_activated_once:
  assumes ws: "getWorkspace ctx = Some ws" and uri: "resource ws = Some uri"
    and desc: "desc \<in> set (registry w)" and evs: "activationEvents desc = Some evs"
    and decl: "''workspaceContains:'' @ f \<in> set evs"
    and proto: "f \<noteq> ''__proto__''"
    and run: "handleEagerPlugins ext ctx w = (p, w')"
  shows "count_list (List.map_filter checked_name (events_since w w')) f = 1
         \<and> FileExistsWithResult (paths_join ext (fsPath uri) f) f \<in> set (events_since w w')
         \<and> count_list (List.map_filter requested_activation (events_since w w'))
               (''workspaceContains:'' @ f)
             = (if f \<noteq> [] \<and> pfs_fileExists ext (paths_join ext (fsPath uri) f) then 1 else 0)"
proof -
  let ?checks = "map (\<lambda>f. FileExistsWithResult (paths_join ext (fsPath uri) f) f) (desired_keys w)"
  let ?acts = "concat (map (\<lambda>f. existing_events ext
                                 (fileExistsWithResult ext (paths_join ext (fsPath uri) f) f))
                       (desired_keys w))"
  have "declares desc (''workspaceContains:'' @ f)"
    using evs decl by (simp add: declares_def)
  then have mem: "f \<in> set (desired_keys w)"
    using desc proto by (auto simp: desired_keys_set)
  then have one: "count_list (desired_keys w) f = 1"
    by (rule count_list_distinct [OF desired_keys_distinct])
  have "trace w' = trace w @ activation_events ext ''*'' @ ?checks @ ?acts"
    using handleEagerPlugins_trace [OF ws uri, of ext w] run by simp
  then have new: "events_since w w' = activation_events ext ''*'' @ ?checks @ ?acts"
    by (simp add: events_since_def)
  have checked: "List.map_filter checked_name (events_since w w') = desired_keys w"
    by (simp add: new map_filter_append checked_of_checks checked_of_existing)
  have requested: "List.map_filter requested_activation (events_since w w') =
      ''*'' # map (\<lambda>f. ''workspaceContains:'' @ f)
                (filter (\<lambda>f. f \<noteq> [] \<and> pfs_fileExists ext (paths_join ext (fsPath uri) f))
                   (desired_keys w))"
    by (simp add: new map_filter_append requested_of_checks requested_of_existing)
  have "FileExistsWithResult (paths_join ext (fsPath uri) f) f \<in> set (events_since w w')"
    using mem by (auto simp: new)
  then show ?thesis
    by (simp add: checked requested one count_list_prefixed [simplified] count_list_filter)
qed

text \<open>
  Two descriptors declare \<^verbatim>\<open>workspaceContains:package.json\<close>, and the file exists.
\<close>

theorem workspaceContains_activated_once_witness:
  "count_list (List.map_filter checked_name
      (events_since (registerPlugins [package_watcher ''b'', package_watcher ''c''] boot)
         (snd (handleEagerPlugins (example_ext [] [] []) example_ctx
                 (registerPlugins [package_watcher ''b'', package_watcher ''c''] boot)))))
      ''package.json'' = 1
   \<and> count_list (List.map_filter requested_activation
      (events_since (registerPlugins [package_watcher ''b'', package_watcher ''c''] boot)
         (snd (handleEagerPlugins (example_ext [] [] []) example_ctx
                 (registerPlugins [package_watcher ''b'', package_watcher ''c''] boot)))))
      ''workspaceContains:package.json'' = 1"
proof -
  let ?w = "registerPlugins [package_watcher ''b'', package_watcher ''c''] boot"
  let ?r = "handleEagerPlugins (example_ext [] [] []) example_ctx ?w"
  have ws: "getWorkspace example_ctx = Some \<lparr>resource = Some \<lparr>fsPath = ''/ws''\<rparr>\<rparr>"
    by (simp add: example_ctx_def)
  have uri: "resource \<lparr>resource = Some \<lparr>fsPath = ''/ws''\<rparr>\<rparr> = Some \<lparr>fsPath = ''/ws''\<rparr>"
    by simp
  have desc: "package_watcher ''c'' \<in> set (registry ?w)"
    by (simp add: registerPlugins_def boot_def emit_def)
  have evs: "activationEvents (package_watcher ''c'') = Some [''workspaceContains:package.json'']"
    by (simp add: package_watcher_def)
  have decl: "''workspaceContains:'' @ ''package.json'' \<in> set [''workspaceContains:package.json'']"
    by simp
  have proto: "''package.json'' \<noteq> ''__proto__''"
    by simp
  have run: "?r = (fst ?r, snd ?r)"
    by simp
  from workspaceContains_activated_once [OF ws uri desc evs decl proto run]
  show ?thesis
    by (simp add: example_ext_def)
qed

text \<open>
  C2.  One registered descriptor declares \<^verbatim>\<open>workspaceContains:__proto__\<close>, the
  workspace root is \<^verbatim>\<open>/ws\<close>, and a file of that name exists there.  The event string
  is declared and its file exists, so the stage should perform one existence check for
  the name and issue one activation request for the event.  The code performs no check
  and issues no request but the one for \<^verbatim>\<open>*\<close>: the assignment
  \<^verbatim>\<open>desiredFilesMap['__proto__'] = true\<close> stores nothing in the object literal, and
  \<^verbatim>\<open>Object.keys\<close> is empty.
\<close>

theorem workspaceContains_proto_not_activated:
  "proto_watcher \<in> set (registry (registerPlugins [proto_watcher] boot))
   \<and> activationEvents proto_watcher = Some [''workspaceContains:__proto__'']
   \<and> getWorkspace example_ctx = Some \<lparr>resource = Some \<lparr>fsPath = ''/ws''\<rparr>\<rparr>
   \<and> pfs_fileExists (example_ext [] [] []) (paths_join (example_ext [] [] []) ''/ws'' ''__proto__'')
   \<and> List.map_filter checked_name
        (events_since (registerPlugins [proto_watcher] boot)
           (snd (handleEagerPlugins (example_ext [] [] []) example_ctx
                   (registerPlugins [proto_watcher] boot)))) = []
   \<and> List.map_filter requested_activation
        (events_since (registerPlugins [proto_watcher] boot)
           (snd (handleEagerPlugins (example_ext [] [] []) example_ctx
                   (registerPlugins [proto_watcher] boot)))) = [''*'']"
  by (simp add: proto_watcher_def example_ext_def example_ctx_def registerPlugins_def boot_def
      emit_def events_since_def handleEagerPlugins_def handleWorkspaceContainsEagerPlugins_def
      activateByEvent_def getAllPluginDescriptions_def obj_set_def Object_keys_def
      is_array_index_def activate_existing_def fileExistsWithResult_def map_filter_simps)

text \<open>
  The empty file name is checked, on the root folder itself, and the guard
  \<^verbatim>\<open>if (!existingFileName) return\<close> then drops it like a file that does not exist.
\<close>

lemma workspaceContains_empty_name_dropped:
  "List.map_filter checked_name
     (events_since (registerPlugins [empty_watcher] boot)
        (snd (handleEagerPlugins (example_ext [] [] []) example_ctx
                (registerPlugins [empty_watcher] boot)))) = [[]]
   \<and> List.map_filter requested_activation
        (events_since (registerPlugins [empty_watcher] boot)
           (snd (handleEagerPlugins (example_ext [] [] []) example_ctx
                   (registerPlugins [empty_watcher] boot)))) = [''*'']"
  by (simp add: empty_watcher_def example_ext_def example_ctx_def registerPlugins_def boot_def
      emit_def events_since_def handleEagerPlugins_def handleWorkspaceContainsEagerPlugins_def
      activateByEvent_def getAllPluginDescriptions_def obj_set_def Object_keys_def
      is_array_index_def activate_existing_def fileExistsWithResult_def map_filter_simps)

section \<open>Properties of the lifecycle\<close>

subsection \<open>What the stages leave alone\<close>

lemma untouched_refl [simp]: "untouched w w"
  by (simp add: untouched_def)

lemma untouched_trans: "untouched w w' \<Longrightarrow> untouched w' w'' \<Longrightarrow> untouched w w''"
  by (simp add: untouched_def)

lemma untouched_emit [simp]: "untouched w (emit e w)"
  by (simp add: untouched_def emit_def)

lemma untouched_emit': "untouched w w' \<Longrightarrow> untouched w (emit e w')"
  by (simp add: untouched_def emit_def)

lemma untouched_activateByEvent: "untouched w w' \<Longrightarrow> untouched w (activateByEvent ext ev w')"
  by (simp add: untouched_def activateByEvent_def emit_def Let_def split: promise_state.splits)

lemma untouched_fold:
  assumes "\<And>x v. untouched w v \<Longrightarrow> untouched w (f x v)"
  shows "untouched w w' \<Longrightarrow> untouched w (fold f xs w')"
  by (induction xs arbitrary: w') (simp_all add: assms)

lemma untouched_activate_existing:
  "untouched w w' \<Longrightarrow> untouched w (activate_existing ext r w')"
  by (simp add: activate_existing_def untouched_activateByEvent split: option.splits)

lemma untouched_handleWorkspaceContains:
  "untouched w (snd (handleWorkspaceContainsEagerPlugins ext ctx w))"
  by (auto simp: handleWorkspaceContainsEagerPlugins_def Let_def
      intro!: untouched_fold untouched_activate_existing untouched_emit'
      split: option.splits)

lemma fst_handleWorkspaceContains [simp]:
  "fst (handleWorkspaceContainsEagerPlugins ext ctx w) = Fulfilled"
  by (simp add: handleWorkspaceContainsEagerPlugins_def Let_def split: option.splits)

lemma fst_handleEagerPlugins [simp]: "fst (handleEagerPlugins ext ctx w) = Fulfilled"
  by (simp add: handleEagerPlugins_def)

lemma untouched_handleEagerPlugins: "untouched w (snd (handleEagerPlugins ext ctx w))"
  unfolding handleEagerPlugins_def
  by (rule untouched_trans [OF untouched_activateByEvent [OF untouched_refl]
        untouched_handleWorkspaceContains])

lemma untouched_called_if_given: "untouched w (called_if_given call path w)"
  by (simp add: called_if_given_def split: option.splits)

lemma snd_scanPlugins:
  "snd (scanPlugins ext c bp up dp v w) =
     called_if_given (\<lambda>p. ScanOneOrMultiplePlugins v p False) dp
       (called_if_given (\<lambda>p. ScanPlugins v p False) up (emit (ScanPlugins v bp True) w))"
  by (simp add: scanPlugins_def Let_def split: prod.splits sum.splits)

lemma untouched_scanPlugins: "untouched w (snd (scanPlugins ext c bp up dp v w))"
  unfolding snd_scanPlugins
  by (blast intro: untouched_trans untouched_called_if_given untouched_emit)

lemma untouched_registerPlugins: "untouched w (registerPlugins exts w)"
  by (simp add: untouched_def registerPlugins_def emit_def)

lemma untouched_registrationDone: "untouched w (registrationDone msgs w)"
  by (simp add: registrationDone_def)

lemma readPlugins_before_tests:
  "readPlugins ext ctx w = handlePluginTests ext ctx (before_tests ext ctx w)"
proof -
  obtain c1 scanned w1 where scan:
    "scanPlugins ext [] (BUILTIN_PLUGINS_PATH ext) (userPluginsHome (getConfiguration_env ctx))
       (pluginDevelopmentPath (getConfiguration_env ctx)) (version (getConfiguration_env ctx)) w
     = ((c1, scanned), w1)"
    by (metis surj_pair)
  obtain c2 and extensions :: "IPluginDescription list" where coll:
    "(case scanned of Inl err \<Rightarrow> (collector_error [] err c1, []) | Inr exts \<Rightarrow> (c1, exts))
     = (c2, extensions)"
    by (metis surj_pair)
  obtain p w3 where eager:
    "handleEagerPlugins ext ctx (registrationDone (getMessages c2) (registerPlugins extensions w1))
     = (p, w3)"
    by (metis surj_pair)
  have "p = Fulfilled"
    using fst_handleEagerPlugins [of ext ctx] eager by (metis fst_conv)
  then show ?thesis
    by (simp add: readPlugins_def before_tests_def Let_def scan coll eager)
qed

lemma untouched_before_tests: "untouched w (before_tests ext ctx w)"
proof -
  obtain c1 scanned w1 where scan:
    "scanPlugins ext [] (BUILTIN_PLUGINS_PATH ext) (userPluginsHome (getConfiguration_env ctx))
       (pluginDevelopmentPath (getConfiguration_env ctx)) (version (getConfiguration_env ctx)) w
     = ((c1, scanned), w1)"
    by (metis surj_pair)
  obtain c2 and extensions :: "IPluginDescription list" where coll:
    "(case scanned of Inl err \<Rightarrow> (collector_error [] err c1, []) | Inr exts \<Rightarrow> (c1, exts))
     = (c2, extensions)"
    by (metis surj_pair)
  let ?w2 = "registrationDone (getMessages c2) (registerPlugins extensions w1)"
  have 1: "untouched w w1"
    using untouched_scanPlugins [of w ext "[]"] scan by (metis snd_conv)
  have 2: "untouched w1 ?w2"
    by (rule untouched_trans [OF untouched_registerPlugins untouched_registrationDone])
  have 3: "untouched ?w2 (snd (handleEagerPlugins ext ctx ?w2))"
    by (rule untouched_handleEagerPlugins)
  have "before_tests ext ctx w = snd (handleEagerPlugins ext ctx ?w2)"
    by (simp add: before_tests_def Let_def scan coll)
  with 1 2 3 show ?thesis
    by (metis untouched_trans)
qed

subsection \<open>The events of the stages\<close>

lemma existing_as_requests:
  "concat (map (\<lambda>f. existing_events ext (fileExistsWithResult ext (g f) f)) ks) =
   concat (map (activation_events ext)
     (map (\<lambda>f. ''workspaceContains:'' @ f) (filter (\<lambda>f. f \<noteq> [] \<and> pfs_fileExists ext (g f)) ks)))"
  by (induction ks) (simp_all add: existing_events_def fileExistsWithResult_def)

lemma handleWorkspaceContains_none:
  "root_folder ctx = None \<Longrightarrow> handleWorkspaceContainsEagerPlugins ext ctx w = (Fulfilled, w)"
  by (simp add: root_folder_def handleWorkspaceContainsEagerPlugins_def split: option.splits)

lemma trace_handleEagerPlugins:
  "trace (snd (handleEagerPlugins ext ctx w)) = trace w @ eager_events ext ctx w"
proof (cases "root_folder ctx")
  case None
  then show ?thesis
    by (simp add: handleEagerPlugins_def handleWorkspaceContains_none trace_activateByEvent
        eager_events_def eager_checks_def eager_requests_def)
next
  case (Some folder)
  then obtain ws uri where ws: "getWorkspace ctx = Some ws" and uri: "resource ws = Some uri"
    and folder: "folder = fsPath uri"
    by (auto simp: root_folder_def split: option.splits)
  show ?thesis
    unfolding handleEagerPlugins_trace [OF ws uri] existing_as_requests
    by (simp add: eager_events_def eager_checks_def eager_requests_def Some folder)
qed

lemma events_since_handleEagerPlugins:
  "events_since w (snd (handleEagerPlugins ext ctx w)) = eager_events ext ctx w"
  by (simp add: events_since_def trace_handleEagerPlugins)

lemma requested_concat_activation_events:
  "List.map_filter requested_activation (concat (map (activation_events ext) evs)) = evs"
  by (induction evs) (simp_all add: map_filter_simps map_filter_append)

lemma checked_concat_activation_events:
  "List.map_filter checked_name (concat (map (activation_events ext) evs)) = []"
  by (induction evs) (simp_all add: map_filter_simps map_filter_append)

lemma requested_eager_checks [simp]:
  "List.map_filter requested_activation (eager_checks ext ctx w) = []"
  by (simp add: eager_checks_def requested_of_checks map_filter_simps split: option.splits)

lemma requested_eager_events:
  "List.map_filter requested_activation (eager_events ext ctx w) = eager_requests ext ctx w"
  by (simp add: eager_events_def map_filter_append requested_concat_activation_events)
    (simp add: eager_requests_def)

lemma is_eager_activation_events: "list_all is_eager_activation (activation_events ext ev)"
  by (simp add: activation_events_def split: promise_state.splits)

lemma is_eager_concat_activation_events:
  "list_all is_eager_activation (concat (map (activation_events ext) evs))"
  by (induction evs) (simp_all add: is_eager_activation_events)

lemma is_eager_checks: "list_all is_eager_activation (eager_checks ext ctx w)"
  by (auto simp: eager_checks_def list_all_iff split: option.splits)

lemma is_eager_events: "list_all is_eager_activation (eager_events ext ctx w)"
  by (simp add: eager_events_def is_eager_activation_events is_eager_checks
      is_eager_concat_activation_events)

lemma wildcard_in_eager_events: "ActivateByEvent ''*'' \<in> set (eager_events ext ctx w)"
  by (simp add: eager_events_def activation_events_def)

lemma trace_called_if_given:
  "trace (called_if_given call path w) =
     trace w @ (case path of None \<Rightarrow> [] | Some p \<Rightarrow> if p = [] then [] else [call p])"
  by (simp add: called_if_given_def split: option.splits)

lemma trace_scanned:
  "trace (snd (scanned ext ctx w)) = trace w @ scan_events ext (getConfiguration_env ctx)"
  by (simp add: scanned_def snd_scanPlugins trace_called_if_given scan_events_def)

lemma trace_registerPlugins [simp]:
  "trace (registerPlugins exts w) = trace w @ [RegisterPlugins exts]"
  by (simp add: registerPlugins_def emit_def)

lemma trace_registrationDone [simp]:
  "trace (registrationDone msgs w) = trace w @ [RegistrationDone msgs]"
  by (simp add: registrationDone_def)

lemma trace_after_registration:
  "trace (after_registration ext ctx w) =
     trace w @ scan_events ext (getConfiguration_env ctx)
     @ [RegisterPlugins (registered ext ctx w), RegistrationDone (collected ext ctx w)]"
  by (simp add: after_registration_def trace_scanned)

lemma before_tests_after_registration:
  "before_tests ext ctx w = snd (handleEagerPlugins ext ctx (after_registration ext ctx w))"
proof -
  obtain c1 r w1 where scan: "scanned ext ctx w = ((c1, r), w1)"
    by (metis surj_pair)
  show ?thesis
  proof (cases r)
    case (Inl err)
    with scan show ?thesis
      by (simp add: before_tests_def after_registration_def registered_def collected_def
          scanned_def [symmetric] Let_def collector_error_def collector_msg_def
          error_diagnostic_def getMessages_def)
  next
    case (Inr exts)
    with scan show ?thesis
      by (simp add: before_tests_def after_registration_def registered_def collected_def
          scanned_def [symmetric] Let_def getMessages_def)
  qed
qed

lemma trace_before_tests:
  "trace (before_tests ext ctx w) =
     trace w @ scan_events ext (getConfiguration_env ctx)
     @ [RegisterPlugins (registered ext ctx w), RegistrationDone (collected ext ctx w)]
     @ eager_events ext ctx (after_registration ext ctx w)"
  by (simp add: before_tests_after_registration trace_handleEagerPlugins
      trace_after_registration)

lemma trace_handlePluginTests:
  "trace (snd (handlePluginTests ext ctx w)) =
     trace w @ test_events ext (getConfiguration_env ctx)"
  by (simp add: handlePluginTests_def test_events_def Let_def setTimeout_def emit_def
      split: option.splits require_result.splits bool.splits)

lemma trace_readPlugins:
  "trace (snd (readPlugins ext ctx w)) =
     trace w @ scan_events ext (getConfiguration_env ctx)
     @ [RegisterPlugins (registered ext ctx w), RegistrationDone (collected ext ctx w)]
     @ eager_events ext ctx (after_registration ext ctx w)
     @ test_events ext (getConfiguration_env ctx)"
  by (simp add: readPlugins_before_tests trace_handlePluginTests trace_before_tests)



lemma events_since_readPlugins:
  "events_since w (snd (readPlugins ext ctx w)) =
     scan_events ext (getConfiguration_env ctx)
     @ [RegisterPlugins (registered ext ctx w), RegistrationDone (collected ext ctx w)]
     @ eager_events ext ctx (after_registration ext ctx w)
     @ test_events ext (getConfiguration_env ctx)"
  by (simp add: events_since_def trace_readPlugins)


subsection \<open>The order of the stages\<close>


subsection \<open>A scan that fails\<close>

lemma exited_handlePluginTests [simp]:
  "exited (snd (handlePluginTests ext ctx w)) = exited w"
  by (simp add: handlePluginTests_def Let_def setTimeout_def emit_def
      split: option.splits require_result.splits bool.splits)

lemma exited_before_tests [simp]: "exited (before_tests ext ctx w) = exited w"
  using untouched_before_tests [of w ext ctx] by (simp add: untouched_def)

lemma exited_readPlugins [simp]: "exited (snd (readPlugins ext ctx w)) = exited w"
  by (simp add: readPlugins_before_tests)

lemma registry_fold:
  assumes "\<And>x v. registry (f x v) = registry v"
  shows "registry (fold f xs w) = registry w"
  by (induction xs arbitrary: w) (simp_all add: assms)

lemma registry_activate_existing [simp]:
  "registry (activate_existing ext r w) = registry w"
  by (simp add: activate_existing_def split: option.splits)

lemma registry_handleEagerPlugins [simp]:
  "registry (snd (handleEagerPlugins ext ctx w)) = registry w"
  by (simp add: handleEagerPlugins_def handleWorkspaceContainsEagerPlugins_def Let_def
      registry_fold split: option.splits)

lemma registry_scanned [simp]: "registry (snd (scanned ext ctx w)) = registry w"
  by (simp add: scanned_def snd_scanPlugins called_if_given_def split: option.splits)

lemma registry_before_tests:
  "registry (before_tests ext ctx w) = registry w @ registered ext ctx w"
  by (simp add: before_tests_after_registration after_registration_def registrationDone_def
      registerPlugins_def emit_def)

text \<open>
  C6.  When the scan of \<^verbatim>\<open>readPlugins\<close> is rejected with \<open>err\<close>, no descriptor is
  registered, the done-signal carries the diagnostics collected so far followed by the
  error \<open>err\<close>, the eager activation and the test stage run as always, and the process
  is not ended.
\<close>

theorem scan_failure_is_collected:
  assumes "snd (fst (scanned ext ctx w)) = Inl err"
  shows "events_since w (snd (readPlugins ext ctx w)) =
           scan_events ext (getConfiguration_env ctx)
           @ [RegisterPlugins [],
              RegistrationDone (fst (fst (scanned ext ctx w)) @ [error_diagnostic err])]
           @ eager_events ext ctx (after_registration ext ctx w)
           @ test_events ext (getConfiguration_env ctx)
         \<and> ActivateByEvent ''*'' \<in> set (eager_events ext ctx (after_registration ext ctx w))
         \<and> readPlugins ext ctx w = handlePluginTests ext ctx (before_tests ext ctx w)
         \<and> registry (before_tests ext ctx w) = registry w
         \<and> exited (snd (readPlugins ext ctx w)) = exited w"
proof -
  have r: "registered ext ctx w = []"
    and c: "collected ext ctx w = fst (fst (scanned ext ctx w)) @ [error_diagnostic err]"
    using assms by (simp_all add: registered_def collected_def)
  have "events_since w (snd (readPlugins ext ctx w)) =
           scan_events ext (getConfiguration_env ctx)
           @ [RegisterPlugins [],
              RegistrationDone (fst (fst (scanned ext ctx w)) @ [error_diagnostic err])]
           @ eager_events ext ctx (after_registration ext ctx w)
           @ test_events ext (getConfiguration_env ctx)"
    using events_since_readPlugins [of w ext ctx] by (simp add: r c)
  moreover have "registry (before_tests ext ctx w) = registry w"
    by (simp add: registry_before_tests r)
  ultimately show ?thesis
    by (simp add: wildcard_in_eager_events readPlugins_before_tests [symmetric])
qed

theorem scan_failure_is_collected_witness:
  "snd (PluginScanner_scanPlugins broken_scan_ext ''1'' ''/builtin'' True) = Inl ''EACCES''
   \<and> RegisterPlugins [] \<in> set (events_since boot (snd (readPlugins broken_scan_ext example_ctx boot)))
   \<and> RegistrationDone [error_diagnostic ''EACCES'']
       \<in> set (events_since boot (snd (readPlugins broken_scan_ext example_ctx boot)))
   \<and> ActivateByEvent ''*''
       \<in> set (events_since boot (snd (readPlugins broken_scan_ext example_ctx boot)))
   \<and> \<not> exited (snd (readPlugins broken_scan_ext example_ctx boot))"
proof -
  have scan: "fst (scanned broken_scan_ext example_ctx boot) = ([], Inl ''EACCES'')"
    by (simp add: scanned_def scanPlugins_def broken_scan_ext_def example_ext_def
        example_ctx_def example_env_def scan_if_given_def rejection_def)
  then have failed: "snd (fst (scanned broken_scan_ext example_ctx boot)) = Inl ''EACCES''"
    by simp
  have alive: "\<not> exited boot"
    by (simp add: boot_def)
  have builtin: "snd (PluginScanner_scanPlugins broken_scan_ext ''1'' ''/builtin'' True)
                   = Inl ''EACCES''"
    by (simp add: broken_scan_ext_def)
  let ?new = "events_since boot (snd (readPlugins broken_scan_ext example_ctx boot))"
  from scan_failure_is_collected [OF failed]
  have ev: "?new =
           scan_events broken_scan_ext (getConfiguration_env example_ctx)
           @ [RegisterPlugins [],
              RegistrationDone (fst (fst (scanned broken_scan_ext example_ctx boot))
                                 @ [error_diagnostic ''EACCES''])]
           @ eager_events broken_scan_ext example_ctx
               (after_registration broken_scan_ext example_ctx boot)
           @ test_events broken_scan_ext (getConfiguration_env example_ctx)"
    and wild: "ActivateByEvent ''*'' \<in> set (eager_events broken_scan_ext example_ctx
                 (after_registration broken_scan_ext example_ctx boot))"
    and ex: "exited (snd (readPlugins broken_scan_ext example_ctx boot)) = exited boot"
    by blast+
  have "RegisterPlugins [] \<in> set ?new"
    and "RegistrationDone [error_diagnostic ''EACCES''] \<in> set ?new"
    and "ActivateByEvent ''*'' \<in> set ?new"
    unfolding ev using wild by (simp_all add: scan)
  with builtin alive ex show ?thesis
    by blast
qed

lemma builtin_rejection_fails_scan:
  assumes "snd (PluginScanner_scanPlugins ext v bp True) = Inl e"
  shows "snd (fst (scanPlugins ext c bp up dp v w)) =
           Inl (join_error ext
                  [Some e,
                   rejection (snd (scan_if_given (\<lambda>p. PluginScanner_scanPlugins ext v p False) up)),
                   rejection (snd (scan_if_given
                      (\<lambda>p. PluginScanner_scanOneOrMultiplePlugins ext v p False) dp))])"
proof -
  obtain m0 where "PluginScanner_scanPlugins ext v bp True = (m0, Inl e)"
    using assms by (cases "PluginScanner_scanPlugins ext v bp True") simp
  then show ?thesis
    by (simp add: scanPlugins_def Let_def rejection_def split: prod.splits sum.splits)
qed

subsection \<open>No workspace folder\<close>

lemma root_folder_None_iff:
  "root_folder ctx = None \<longleftrightarrow>
     getWorkspace ctx = None \<or> (\<exists>ws. getWorkspace ctx = Some ws \<and> resource ws = None)"
  by (auto simp: root_folder_def split: option.splits)

lemma checked_eager_events:
  "List.map_filter checked_name (eager_events ext ctx w) =
     (case root_folder ctx of None \<Rightarrow> [] | Some folder \<Rightarrow> desired_keys w)"
  by (simp add: eager_events_def eager_checks_def map_filter_append checked_of_checks
      checked_concat_activation_events map_filter_simps split: option.splits)

text \<open>
  C10.  Without a workspace, or with a workspace that has no root resource, the
  \<^verbatim>\<open>workspaceContains\<close> step returns at once and changes nothing; the whole run then
  performs no existence check and issues the activation request for \<^verbatim>\<open>*\<close> and no
  other, and it goes on to the test stage.
\<close>

theorem no_workspace_only_wildcard:
  assumes "getWorkspace ctx = None \<or> (\<exists>ws. getWorkspace ctx = Some ws \<and> resource ws = None)"
  shows "handleWorkspaceContainsEagerPlugins ext ctx w = (Fulfilled, w)
         \<and> handleEagerPlugins ext ctx w = (Fulfilled, activateByEvent ext ''*'' w)
         \<and> List.map_filter checked_name (events_since w (snd (readPlugins ext ctx w))) = []
         \<and> List.map_filter requested_activation (events_since w (snd (readPlugins ext ctx w)))
             = [''*'']
         \<and> readPlugins ext ctx w =
             handlePluginTests ext ctx
               (activateByEvent ext ''*'' (after_registration ext ctx w))"
proof -
  have none: "root_folder ctx = None"
    using assms by (simp add: root_folder_None_iff)
  have ws: "handleWorkspaceContainsEagerPlugins ext ctx v = (Fulfilled, v)" for v
    by (rule handleWorkspaceContains_none [OF none])
  have eager: "handleEagerPlugins ext ctx v = (Fulfilled, activateByEvent ext ''*'' v)" for v
    by (simp add: handleEagerPlugins_def ws)
  have no_scan_r: "List.map_filter requested_activation
                     (scan_events ext (getConfiguration_env ctx)) = []"
    and no_scan_c: "List.map_filter checked_name
                     (scan_events ext (getConfiguration_env ctx)) = []"
    by (simp_all add: scan_events_def map_filter_simps split: option.splits)
  have no_test_r: "List.map_filter requested_activation
                     (test_events ext (getConfiguration_env ctx)) = []"
    and no_test_c: "List.map_filter checked_name
                     (test_events ext (getConfiguration_env ctx)) = []"
    by (simp_all add: test_events_def map_filter_simps
        split: option.splits require_result.splits bool.splits)
  have checks: "List.map_filter checked_name (events_since w (snd (readPlugins ext ctx w))) = []"
    by (simp add: events_since_readPlugins map_filter_append no_scan_c no_test_c
        checked_eager_events none map_filter_simps)
  have requests:
    "List.map_filter requested_activation (events_since w (snd (readPlugins ext ctx w))) = [''*'']"
    by (simp add: events_since_readPlugins map_filter_append no_scan_r no_test_r
        requested_eager_events map_filter_simps)
      (simp add: eager_requests_def none)
  have "readPlugins ext ctx w =
          handlePluginTests ext ctx (activateByEvent ext ''*'' (after_registration ext ctx w))"
    by (simp add: readPlugins_before_tests before_tests_after_registration eager)
  with ws eager checks requests show ?thesis
    by simp
qed

theorem no_workspace_only_wildcard_witness:
  "List.map_filter requested_activation
     (events_since (registerPlugins [package_watcher ''b''] boot)
        (snd (readPlugins (example_ext [] [] []) test_ctx
                (registerPlugins [package_watcher ''b''] boot)))) = [''*'']
   \<and> List.map_filter checked_name
     (events_since (registerPlugins [package_watcher ''b''] boot)
        (snd (readPlugins (example_ext [] [] []) rootless_ctx
                (registerPlugins [package_watcher ''b''] boot)))) = []
   \<and> TestRunnerRun ''/t''
       \<in> set (trace (snd (readPlugins (example_ext [] [] []) test_ctx
                (registerPlugins [package_watcher ''b''] boot))))"
proof -
  let ?ext = "example_ext [] [] []"
  let ?w = "registerPlugins [package_watcher ''b''] boot"
  have none: "getWorkspace test_ctx = None
                \<or> (\<exists>ws. getWorkspace test_ctx = Some ws \<and> resource ws = None)"
    by (simp add: test_ctx_def)
  have rootless: "getWorkspace rootless_ctx = None
                \<or> (\<exists>ws. getWorkspace rootless_ctx = Some ws \<and> resource ws = None)"
    by (simp add: rootless_ctx_def)
  from no_workspace_only_wildcard [OF none, of ?ext ?w]
  have 1: "List.map_filter requested_activation
             (events_since ?w (snd (readPlugins ?ext test_ctx ?w))) = [''*'']"
    and go: "readPlugins ?ext test_ctx ?w =
               handlePluginTests ?ext test_ctx
                 (activateByEvent ?ext ''*'' (after_registration ?ext test_ctx ?w))"
    by blast+
  from no_workspace_only_wildcard [OF rootless, of ?ext ?w]
  have 2: "List.map_filter checked_name
             (events_since ?w (snd (readPlugins ?ext rootless_ctx ?w))) = []"
    by blast
  have 3: "TestRunnerRun ''/t'' \<in> set (trace (snd (readPlugins ?ext test_ctx ?w)))"
    unfolding go
    by (simp add: trace_handlePluginTests test_events_def test_ctx_def test_env_def truthy_def
        example_ext_def)
  from 1 2 3 show ?thesis
    by blast
qed

subsection \<open>Activation requests that fail\<close>

lemma pending_emit [simp]: "pendingActivations (emit e w) = pendingActivations w"
  by (simp add: emit_def)

lemma pending_activateByEvent:
  "pendingActivations (activateByEvent ext ev w) =
     pendingActivations w @ filter (\<lambda>e. pluginService_activateByEvent ext e = Pending) [ev]"
  by (simp add: activateByEvent_def Let_def split: promise_state.splits)

lemma pending_fold_emit:
  "pendingActivations (fold (\<lambda>x. emit (g x)) xs w) = pendingActivations w"
  by (induction xs arbitrary: w) simp_all

lemma pending_activate_existing:
  "pendingActivations (activate_existing ext r w) =
     pendingActivations w
     @ filter (\<lambda>e. pluginService_activateByEvent ext e = Pending)
         (case r of None \<Rightarrow> [] | Some n \<Rightarrow> if n = [] then [] else [''workspaceContains:'' @ n])"
  by (simp add: activate_existing_def pending_activateByEvent split: option.splits)

lemma pending_fold_activate_existing:
  "pendingActivations
     (fold (activate_existing ext) (map (\<lambda>f. fileExistsWithResult ext (g f) f) ks) w) =
   pendingActivations w
   @ filter (\<lambda>e. pluginService_activateByEvent ext e = Pending)
       (map (\<lambda>f. ''workspaceContains:'' @ f)
          (filter (\<lambda>f. f \<noteq> [] \<and> pfs_fileExists ext (g f)) ks))"
proof (induction ks arbitrary: w)
  case Nil
  then show ?case by simp
next
  case (Cons k ks)
  show ?case
    by (simp add: Cons.IH pending_activate_existing)
      (simp add: fileExistsWithResult_def)
qed

lemma append_literal_Cons: "(@) (x # xs) = (\<lambda>ys. x # (xs @ ys))"
  by (rule ext) simp

lemma append_literal_Nil: "(@) [] = (\<lambda>ys. ys)"
  by (rule ext) simp

lemma pending_handleEagerPlugins:
  "pendingActivations (snd (handleEagerPlugins ext ctx w)) =
     pendingActivations w
     @ filter (\<lambda>e. pluginService_activateByEvent ext e = Pending) (eager_requests ext ctx w)"
proof (cases "root_folder ctx")
  case None
  then show ?thesis
    by (simp add: handleEagerPlugins_def handleWorkspaceContains_none pending_activateByEvent
        eager_requests_def)
next
  case (Some folder)
  then obtain ws uri where ws: "getWorkspace ctx = Some ws" and uri: "resource ws = Some uri"
    and folder: "folder = fsPath uri"
    by (auto simp: root_folder_def split: option.splits)
  show ?thesis
    by (simp add: handleEagerPlugins_def handleWorkspaceContainsEagerPlugins_def ws uri Let_def
        pending_fold_activate_existing pending_fold_emit pending_activateByEvent
        eager_requests_def Some folder desired_keys_def getAllPluginDescriptions_def
        append_literal_Cons append_literal_Nil)
qed

lemma rejected_request_logged:
  assumes "ev \<in> set (eager_requests ext ctx w)"
    and "pluginService_activateByEvent ext ev = Rejected err"
  shows "ConsoleError err \<in> set (eager_events ext ctx w)"
proof -
  have "ConsoleError err \<in> set (activation_events ext ev)"
    using assms(2) by (simp add: activation_events_def)
  moreover have "ev = ''*'' \<or> ev \<in> set (tl (eager_requests ext ctx w))"
    using assms(1) by (auto simp: eager_requests_def)
  ultimately show ?thesis
    by (auto simp: eager_events_def)
qed

lemma requested_iff:
  "ActivateByEvent ev \<in> set evs \<longleftrightarrow> ev \<in> set (List.map_filter requested_activation evs)"
proof (induction evs)
  case Nil
  then show ?case by (simp add: map_filter_simps)
next
  case (Cons e evs)
  then show ?case by (cases e) (auto simp: map_filter_simps)
qed

lemma eager_requests_any_outcome [simp]:
  "eager_requests (ext\<lparr>pluginService_activateByEvent := outcome\<rparr>) ctx w =
     eager_requests ext ctx w"
  by (simp add: eager_requests_def split: option.splits)

text \<open>
  C7.  An activation request of the eager stage whose promise is rejected when it is
  returned is logged within the stage; one whose promise is open is remembered, and its
  later rejection is logged, ends nothing and leaves the other open requests in place.
  The requests that the stage issues do not depend on how any of them settles, the stage
  is always fulfilled, and the test stage is entered with the process alive as before.
\<close>

theorem activation_failure_is_logged:
  "(ActivateByEvent ev \<in> set (events_since w (snd (handleEagerPlugins ext ctx w)))
      \<and> pluginService_activateByEvent ext ev = Rejected err
    \<longrightarrow> ConsoleError err \<in> set (events_since w (snd (handleEagerPlugins ext ctx w))))
   \<and> (ActivateByEvent ev \<in> set (events_since w (snd (handleEagerPlugins ext ctx w)))
      \<and> pluginService_activateByEvent ext ev = Pending
    \<longrightarrow> ev \<in> set (pendingActivations (snd (handleEagerPlugins ext ctx w))))
   \<and> (ev \<in> set (pendingActivations v) \<and> \<not> exited v
    \<longrightarrow> trace (deliver ext (ActivationSettled ev (Some err)) v) = trace v @ [ConsoleError err]
        \<and> pendingActivations (deliver ext (ActivationSettled ev (Some err)) v)
            = remove1 ev (pendingActivations v)
        \<and> \<not> exited (deliver ext (ActivationSettled ev (Some err)) v))
   \<and> List.map_filter requested_activation
        (events_since w
           (snd (handleEagerPlugins (ext\<lparr>pluginService_activateByEvent := outcome\<rparr>) ctx w)))
      = List.map_filter requested_activation
          (events_since w (snd (handleEagerPlugins ext ctx w)))
   \<and> fst (handleEagerPlugins ext ctx w) = Fulfilled
   \<and> readPlugins ext ctx w = handlePluginTests ext ctx (before_tests ext ctx w)
   \<and> exited (snd (readPlugins ext ctx w)) = exited w"
proof -
  have req: "ActivateByEvent ev \<in> set (events_since w (snd (handleEagerPlugins ext ctx w)))
               \<longleftrightarrow> ev \<in> set (eager_requests ext ctx w)"
    by (simp add: requested_iff events_since_handleEagerPlugins requested_eager_events)
  have a: "ConsoleError err \<in> set (events_since w (snd (handleEagerPlugins ext ctx w)))"
    if "ActivateByEvent ev \<in> set (events_since w (snd (handleEagerPlugins ext ctx w)))"
      and "pluginService_activateByEvent ext ev = Rejected err"
  proof -
    from that(1) have "ev \<in> set (eager_requests ext ctx w)"
      using req by blast
    from rejected_request_logged [OF this that(2)] show ?thesis
      by (simp add: events_since_handleEagerPlugins)
  qed
  have b: "ev \<in> set (pendingActivations (snd (handleEagerPlugins ext ctx w)))"
    if "ActivateByEvent ev \<in> set (events_since w (snd (handleEagerPlugins ext ctx w)))"
      and "pluginService_activateByEvent ext ev = Pending"
  proof -
    from that(1) have "ev \<in> set (eager_requests ext ctx w)"
      using req by blast
    with that(2) show ?thesis
      by (simp add: pending_handleEagerPlugins)
  qed
  have c: "trace (deliver ext (ActivationSettled ev (Some err)) v) = trace v @ [ConsoleError err]
        \<and> pendingActivations (deliver ext (ActivationSettled ev (Some err)) v)
            = remove1 ev (pendingActivations v)
        \<and> \<not> exited (deliver ext (ActivationSettled ev (Some err)) v)"
    if "ev \<in> set (pendingActivations v)" and "\<not> exited v"
    using that by (simp add: deliver_def emit_def)
  have d: "List.map_filter requested_activation
        (events_since w
           (snd (handleEagerPlugins (ext\<lparr>pluginService_activateByEvent := outcome\<rparr>) ctx w)))
      = List.map_filter requested_activation
          (events_since w (snd (handleEagerPlugins ext ctx w)))"
    by (simp add: events_since_handleEagerPlugins requested_eager_events)
  show ?thesis
    using a b c d by (simp add: readPlugins_before_tests [symmetric])
qed

theorem activation_failure_is_logged_witness:
  "ConsoleError ''activation failed''
     \<in> set (events_since (registerPlugins [package_watcher ''b''] boot)
               (snd (handleEagerPlugins rejecting_ext example_ctx
                       (registerPlugins [package_watcher ''b''] boot))))
   \<and> List.map_filter requested_activation
        (events_since (registerPlugins [package_watcher ''b''] boot)
           (snd (handleEagerPlugins rejecting_ext example_ctx
                   (registerPlugins [package_watcher ''b''] boot))))
      = [''*'', ''workspaceContains:package.json'']
   \<and> ''*'' \<in> set (pendingActivations (snd (handleEagerPlugins pending_ext example_ctx boot)))
   \<and> trace (deliver pending_ext (ActivationSettled ''*'' (Some ''late failure''))
               (snd (handleEagerPlugins pending_ext example_ctx boot)))
       = trace (snd (handleEagerPlugins pending_ext example_ctx boot))
         @ [ConsoleError ''late failure'']"
proof -
  let ?w = "registerPlugins [package_watcher ''b''] boot"
  let ?r = "snd (handleEagerPlugins rejecting_ext example_ctx ?w)"
  let ?p = "snd (handleEagerPlugins pending_ext example_ctx boot)"
  have plain: "(example_ext [] [] [])\<lparr>pluginService_activateByEvent :=
                  (\<lambda>activationEvent. Rejected ''activation failed'')\<rparr> = rejecting_ext"
    by (simp add: rejecting_ext_def)
  have issued: "ActivateByEvent ''*'' \<in> set (events_since ?w ?r)"
    by (simp add: events_since_handleEagerPlugins wildcard_in_eager_events)
  have rejected: "pluginService_activateByEvent rejecting_ext ''*'' = Rejected ''activation failed''"
    by (simp add: rejecting_ext_def)
  have issued': "ActivateByEvent ''*'' \<in> set (events_since boot ?p)"
    by (simp add: events_since_handleEagerPlugins wildcard_in_eager_events)
  have pending: "pluginService_activateByEvent pending_ext ''*'' = Pending"
    by (simp add: pending_ext_def)
  have alive: "\<not> exited ?p"
    using untouched_handleEagerPlugins [of boot pending_ext example_ctx]
    by (simp add: untouched_def boot_def)
  from activation_failure_is_logged [where ev = "''*''" and w = ?w and ext = rejecting_ext
      and ctx = example_ctx and err = "''activation failed''" and v = boot]
    issued rejected
  have 1: "ConsoleError ''activation failed'' \<in> set (events_since ?w ?r)"
    by blast
  from activation_failure_is_logged [where ev = "''*''" and w = ?w
      and ext = "example_ext [] [] []" and ctx = example_ctx and v = boot
      and outcome = "\<lambda>activationEvent. Rejected ''activation failed''"]
  have same: "List.map_filter requested_activation (events_since ?w ?r) =
        List.map_filter requested_activation
          (events_since ?w (snd (handleEagerPlugins (example_ext [] [] []) example_ctx ?w)))"
    unfolding plain by blast
  have 2: "List.map_filter requested_activation (events_since ?w ?r)
             = [''*'', ''workspaceContains:package.json'']"
    unfolding same
    by (simp add: package_watcher_def example_ext_def example_ctx_def registerPlugins_def boot_def
      emit_def events_since_def handleEagerPlugins_def handleWorkspaceContainsEagerPlugins_def
      activateByEvent_def getAllPluginDescriptions_def obj_set_def Object_keys_def
      is_array_index_def is_digit_def activate_existing_def fileExistsWithResult_def
      map_filter_simps example_join_def)
  from activation_failure_is_logged [where ev = "''*''" and w = boot and ext = pending_ext
      and ctx = example_ctx and v = ?p] issued' pending
  have 3: "''*'' \<in> set (pendingActivations ?p)"
    by blast
  from activation_failure_is_logged [where ev = "''*''" and w = boot and ext = pending_ext
      and ctx = example_ctx and v = ?p and err = "''late failure''"] 3 alive
  have 4: "trace (deliver pending_ext (ActivationSettled ''*'' (Some ''late failure'')) ?p)
             = trace ?p @ [ConsoleError ''late failure'']"
    by blast
  from 1 2 3 4 show ?thesis
    by blast
qed

subsection \<open>The test run\<close>

lemma handlePluginTests_skipped:
  assumes "\<not> truthy (pluginTestsPath (getConfiguration_env ctx))
           \<or> \<not> truthy (pluginDevelopmentPath (getConfiguration_env ctx))"
  shows "handlePluginTests ext ctx w = (Fulfilled, w)"
  using assms by (auto simp: handlePluginTests_def)

lemma handlePluginTests_runs:
  assumes "pluginTestsPath (getConfiguration_env ctx) = Some t" and "t \<noteq> []"
    and "truthy (pluginDevelopmentPath (getConfiguration_env ctx))"
    and "nodeRequire ext t = Loaded True"
  shows "handlePluginTests ext ctx w =
           (Pending, (emit (TestRunnerRun t) (emit (NodeRequire t) w))\<lparr>testRun := Some Pending\<rparr>)"
  using assms by (simp add: handlePluginTests_def truthy_def)

lemma handlePluginTests_fails:
  assumes "pluginTestsPath (getConfiguration_env ctx) = Some t" and "t \<noteq> []"
    and "truthy (pluginDevelopmentPath (getConfiguration_env ctx))"
    and "nodeRequire ext t \<noteq> Loaded True"
  shows "handlePluginTests ext ctx w =
           (Rejected (test_failure ext t), setTimeout ExitProcess 0 (emit (NodeRequire t) w))"
proof (cases "nodeRequire ext t")
  case (Throws requireError)
  with assms show ?thesis
    by (simp add: handlePluginTests_def truthy_def test_failure_def)
next
  case (Loaded b)
  with assms have "b = False"
    by simp
  with Loaded assms show ?thesis
    by (simp add: handlePluginTests_def truthy_def test_failure_def)
qed

lemma testCallback_schedules_exit:
  "trace (testCallback error w) =
     trace w @ (if testRun w = Some Pending then (case error of Some err \<Rightarrow> [ConsoleError err]
                                                   | None \<Rightarrow> []) else [])
     @ [SetTimeout ExitProcess 800]
   \<and> timeouts (testCallback error w) = timeouts w @ [(ExitProcess, 800)]
   \<and> exited (testCallback error w) = exited w"
  by (simp add: testCallback_def setTimeout_def emit_def Let_def split: option.splits)

lemma exit_timer_fires:
  assumes "\<not> exited w" and "n < length (timeouts w)" and "fst (timeouts w ! n) = ExitProcess"
  shows "trace (deliver ext (TimeoutFires n) w) = trace w @ [ProcessExit]
         \<and> exited (deliver ext (TimeoutFires n) w)"
  using assms by (simp add: deliver_def run_timer_def process_exit_def emit_def)

text \<open>
  C3.  Unless both the tests path and the development path are set (and not empty),
  \<^verbatim>\<open>handlePluginTests\<close> is fulfilled at once and changes nothing.  With both set and
  a loaded module that has a \<^verbatim>\<open>run\<close> function, the module is required, the runner is
  invoked with the tests path and the promise stays open.  Whenever the runner calls
  back, with an error or without, an exit is scheduled with a delay of 800, the process
  is still alive, and it ends when that timer fires.
\<close>

theorem test_stage_runs_when_configured:
  "(\<not> truthy (pluginTestsPath (getConfiguration_env ctx))
      \<or> \<not> truthy (pluginDevelopmentPath (getConfiguration_env ctx))
    \<longrightarrow> handlePluginTests ext ctx w = (Fulfilled, w))
   \<and> (pluginTestsPath (getConfiguration_env ctx) = Some t \<and> t \<noteq> []
      \<and> truthy (pluginDevelopmentPath (getConfiguration_env ctx))
      \<and> nodeRequire ext t = Loaded True
    \<longrightarrow> handlePluginTests ext ctx w =
          (Pending, (emit (TestRunnerRun t) (emit (NodeRequire t) w))\<lparr>testRun := Some Pending\<rparr>))
   \<and> (testRun v \<noteq> None \<and> \<not> exited v
    \<longrightarrow> (\<exists>logged. trace (deliver ext (TestRunnerCallback error) v) =
                     trace v @ logged @ [SetTimeout ExitProcess 800])
        \<and> timeouts (deliver ext (TestRunnerCallback error) v) = timeouts v @ [(ExitProcess, 800)]
        \<and> \<not> exited (deliver ext (TestRunnerCallback error) v)
        \<and> exited (deliver ext (TimeoutFires (length (timeouts v)))
                    (deliver ext (TestRunnerCallback error) v)))"
proof -
  have cb: "(\<exists>logged. trace (deliver ext (TestRunnerCallback error) v) =
                     trace v @ logged @ [SetTimeout ExitProcess 800])
        \<and> timeouts (deliver ext (TestRunnerCallback error) v) = timeouts v @ [(ExitProcess, 800)]
        \<and> \<not> exited (deliver ext (TestRunnerCallback error) v)
        \<and> exited (deliver ext (TimeoutFires (length (timeouts v)))
                    (deliver ext (TestRunnerCallback error) v))"
    if armed: "testRun v \<noteq> None" and alive: "\<not> exited v"
  proof -
    let ?v = "deliver ext (TestRunnerCallback error) v"
    have d: "?v = testCallback error v"
      using armed alive by (auto simp: deliver_def)
    have tr: "\<exists>logged. trace ?v = trace v @ logged @ [SetTimeout ExitProcess 800]"
      unfolding d using testCallback_schedules_exit [of error v] by blast
    have ts: "timeouts ?v = timeouts v @ [(ExitProcess, 800)]" and ex: "\<not> exited ?v"
      unfolding d using testCallback_schedules_exit [of error v] alive by simp_all
    have "exited (deliver ext (TimeoutFires (length (timeouts v))) ?v)"
      using exit_timer_fires [of ?v "length (timeouts v)" ext] ex by (simp add: ts)
    with tr ts ex show ?thesis
      by blast
  qed
  show ?thesis
    using handlePluginTests_skipped [of ctx ext w] handlePluginTests_runs [of ctx t ext w] cb
    by blast
qed

theorem test_stage_runs_when_configured_witness:
  "handlePluginTests (example_ext [] [] []) example_ctx boot = (Fulfilled, boot)
   \<and> fst (handlePluginTests (example_ext [] [] []) test_ctx boot) = Pending
   \<and> trace (snd (handlePluginTests (example_ext [] [] []) test_ctx boot))
       = [NodeRequire ''/t'', TestRunnerRun ''/t'']
   \<and> timeouts (deliver (example_ext [] [] []) (TestRunnerCallback None)
                 (snd (handlePluginTests (example_ext [] [] []) test_ctx boot)))
       = [(ExitProcess, 800)]
   \<and> exited (deliver (example_ext [] [] []) (TimeoutFires 0)
               (deliver (example_ext [] [] []) (TestRunnerCallback None)
                  (snd (handlePluginTests (example_ext [] [] []) test_ctx boot))))"
proof -
  let ?ext = "example_ext [] [] []"
  let ?v = "(emit (TestRunnerRun ''/t'') (emit (NodeRequire ''/t'') boot))\<lparr>testRun := Some Pending\<rparr>"
  have skip: "\<not> truthy (pluginTestsPath (getConfiguration_env example_ctx))
               \<or> \<not> truthy (pluginDevelopmentPath (getConfiguration_env example_ctx))"
    by (simp add: example_ctx_def example_env_def truthy_def)
  have cfg: "pluginTestsPath (getConfiguration_env test_ctx) = Some ''/t'' \<and> ''/t'' \<noteq> []
      \<and> truthy (pluginDevelopmentPath (getConfiguration_env test_ctx))
      \<and> nodeRequire ?ext ''/t'' = Loaded True"
    by (simp add: test_ctx_def test_env_def truthy_def example_ext_def)
  have armed: "testRun ?v \<noteq> None \<and> \<not> exited ?v"
    by (simp add: emit_def boot_def)
  from test_stage_runs_when_configured [of example_ctx ?ext boot "''/t''" ?v None] skip
  have 1: "handlePluginTests ?ext example_ctx boot = (Fulfilled, boot)"
    by blast
  from test_stage_runs_when_configured [of test_ctx ?ext boot "''/t''" ?v None] cfg armed
  have 2: "handlePluginTests ?ext test_ctx boot = (Pending, ?v)"
    and 3: "timeouts (deliver ?ext (TestRunnerCallback None) ?v) = timeouts ?v @ [(ExitProcess, 800)]"
    and 4: "exited (deliver ?ext (TimeoutFires (length (timeouts ?v)))
                     (deliver ?ext (TestRunnerCallback None) ?v))"
    by blast+
  have ts: "timeouts ?v = []" and tr: "trace ?v = [NodeRequire ''/t'', TestRunnerRun ''/t'']"
    by (simp_all add: emit_def boot_def)
  show ?thesis
    using 1 3 4 by (simp add: 2 ts tr)
qed

text \<open>
  C4.  With a test run configured and a module that fails to load or has no \<^verbatim>\<open>run\<close>
  function, \<^verbatim>\<open>handlePluginTests\<close> schedules an exit with delay 0 and is rejected with
  the error of \<^verbatim>\<open>require\<close>, or with the message that the path does not point to a
  valid extension test runner.  The top level logs that error, the process is alive
  until the timer fires, and it ends when the timer fires.
\<close>

theorem invalid_runner_exits_at_once:
  assumes t: "pluginTestsPath (getConfiguration_env (contextService d)) = Some t"
    and nonempty: "t \<noteq> []"
    and dev: "truthy (pluginDevelopmentPath (getConfiguration_env (contextService d)))"
    and bad: "nodeRequire ext t \<noteq> Loaded True"
    and init: "initData w = Some d" and alive: "\<not> exited w"
  shows "handlePluginTests ext (contextService d) v =
           (Rejected (test_failure ext t), setTimeout ExitProcess 0 (emit (NodeRequire t) v))
         \<and> (case nodeRequire ext t of
               Throws requireError \<Rightarrow> test_failure ext t = requireError
             | Loaded b \<Rightarrow>
                 test_failure ext t =
                   ''Path '' @ t @ '' does not point to a valid extension test runner.'')
         \<and> trace (hostMain ext w) =
             trace (before_tests ext (contextService d) w)
             @ [NodeRequire t, SetTimeout ExitProcess 0, ConsoleError (test_failure ext t)]
         \<and> timeouts (hostMain ext w) = timeouts w @ [(ExitProcess, 0)]
         \<and> \<not> exited (hostMain ext w)
         \<and> trace (deliver ext (TimeoutFires (length (timeouts w))) (hostMain ext w)) =
             trace (hostMain ext w) @ [ProcessExit]
         \<and> exited (deliver ext (TimeoutFires (length (timeouts w))) (hostMain ext w))"
proof -
  let ?ctx = "contextService d"
  let ?b = "before_tests ext ?ctx w"
  have fails: "handlePluginTests ext ?ctx u =
           (Rejected (test_failure ext t), setTimeout ExitProcess 0 (emit (NodeRequire t) u))" for u
    by (rule handlePluginTests_fails [OF t nonempty dev bad])
  have msg: "(case nodeRequire ext t of
               Throws requireError \<Rightarrow> test_failure ext t = requireError
             | Loaded b \<Rightarrow>
                 test_failure ext t =
                   ''Path '' @ t @ '' does not point to a valid extension test runner.'')"
    by (simp add: test_failure_def pluginTestError_def split: require_result.splits)
  have same: "timeouts ?b = timeouts w" "exited ?b = exited w"
    using untouched_before_tests [of w ext ?ctx] by (simp_all add: untouched_def)
  have main: "hostMain ext w =
      emit (ConsoleError (test_failure ext t)) (setTimeout ExitProcess 0 (emit (NodeRequire t) ?b))"
    by (simp add: hostMain_def init start_def readPlugins_before_tests fails)
  have tr: "trace (hostMain ext w) =
             trace ?b @ [NodeRequire t, SetTimeout ExitProcess 0, ConsoleError (test_failure ext t)]"
    and ts: "timeouts (hostMain ext w) = timeouts w @ [(ExitProcess, 0)]"
    and ex: "\<not> exited (hostMain ext w)"
    using alive by (simp_all add: main setTimeout_def emit_def same)
  have "trace (deliver ext (TimeoutFires (length (timeouts w))) (hostMain ext w)) =
             trace (hostMain ext w) @ [ProcessExit]
         \<and> exited (deliver ext (TimeoutFires (length (timeouts w))) (hostMain ext w))"
    using exit_timer_fires [of "hostMain ext w" "length (timeouts w)" ext] ex by (simp add: ts)
  with fails msg tr ts ex show ?thesis
    by simp
qed

theorem invalid_runner_exits_at_once_witness:
  "ConsoleError ''Path /t does not point to a valid extension test runner.''
     \<in> set (trace (hostMain no_run_ext (boot\<lparr>initData := Some test_init\<rparr>)))
   \<and> timeouts (hostMain no_run_ext (boot\<lparr>initData := Some test_init\<rparr>)) = [(ExitProcess, 0)]
   \<and> exited (deliver no_run_ext (TimeoutFires 0)
               (hostMain no_run_ext (boot\<lparr>initData := Some test_init\<rparr>)))"
proof -
  let ?w = "boot\<lparr>initData := Some test_init\<rparr>"
  have t: "pluginTestsPath (getConfiguration_env (contextService test_init)) = Some ''/t''"
    and nonempty: "''/t'' \<noteq> []"
    and dev: "truthy (pluginDevelopmentPath (getConfiguration_env (contextService test_init)))"
    and bad: "nodeRequire no_run_ext ''/t'' \<noteq> Loaded True"
    and init: "initData ?w = Some test_init" and alive: "\<not> exited ?w"
    by (simp_all add: test_init_def test_ctx_def test_env_def truthy_def no_run_ext_def boot_def)
  have none: "timeouts ?w = []"
    by (simp add: boot_def)
  have req: "nodeRequire no_run_ext ''/t'' = Loaded False"
    by (simp add: no_run_ext_def)
  from invalid_runner_exits_at_once [OF t nonempty dev bad init alive, of ?w]
  show ?thesis
    by (simp add: none req)
qed

subsection \<open>Requests that are still open\<close>


section \<open>Properties of the process\<close>

subsection \<open>The lifecycle inside the process\<close>

lemma same_process_untouched: "untouched w w' \<Longrightarrow> same_process w w'"
  by (simp add: untouched_def same_process_def)

lemma same_process_handlePluginTests: "same_process w (snd (handlePluginTests ext ctx w))"
  by (simp add: handlePluginTests_def same_process_def Let_def setTimeout_def emit_def
      split: option.splits require_result.splits bool.splits)

lemma same_process_trans: "same_process w w' \<Longrightarrow> same_process w' w'' \<Longrightarrow> same_process w w''"
  by (simp add: same_process_def)

lemma same_process_readPlugins: "same_process w (snd (readPlugins ext ctx w))"
  unfolding readPlugins_before_tests
  by (rule same_process_trans [OF same_process_untouched [OF untouched_before_tests]
        same_process_handlePluginTests])

lemma trace_hostMain: "trace (hostMain ext w) = trace w @ main_events ext w"
proof (cases "initData w")
  case None
  then show ?thesis by (simp add: hostMain_def main_events_def)
next
  case (Some d)
  obtain p w' where r: "readPlugins ext (contextService d) w = (p, w')"
    by (metis surj_pair)
  have "trace w' = trace w @ events_since w w'"
    using trace_readPlugins [of ext "contextService d" w] r by (simp add: events_since_def)
  then show ?thesis
    by (cases p) (simp_all add: hostMain_def main_events_def Some start_def r)
qed

lemma same_process_hostMain: "same_process w (hostMain ext w)"
proof (cases "initData w")
  case None
  then show ?thesis by (simp add: hostMain_def same_process_def)
next
  case (Some d)
  obtain p w' where r: "readPlugins ext (contextService d) w = (p, w')"
    by (metis surj_pair)
  have "same_process w w'"
    using same_process_readPlugins [of w ext "contextService d"] r by simp
  then show ?thesis
    by (cases p) (simp_all add: hostMain_def Some start_def r same_process_def emit_def)
qed

lemma dispatched_scan_events [simp]: "List.map_filter dispatched (scan_events ext env) = []"
  by (simp add: scan_events_def map_filter_simps split: option.splits)

lemma dispatched_test_events [simp]: "List.map_filter dispatched (test_events ext env) = []"
  by (simp add: test_events_def map_filter_simps
      split: option.splits require_result.splits bool.splits)

lemma dispatched_none:
  "list_all (\<lambda>e. dispatched e = None) evs \<Longrightarrow> List.map_filter dispatched evs = []"
  by (induction evs) (simp_all add: map_filter_simps)

lemma eager_not_dispatched: "is_eager_activation e \<Longrightarrow> dispatched e = None"
  by (cases e) simp_all

lemma dispatched_eager_events [simp]:
  "List.map_filter dispatched (eager_events ext ctx w) = []"
proof (rule dispatched_none)
  show "list_all (\<lambda>e. dispatched e = None) (eager_events ext ctx w)"
    using is_eager_events [of ext ctx w] by (simp add: list_all_iff eager_not_dispatched)
qed

lemma dispatched_main_events [simp]: "List.map_filter dispatched (main_events ext w) = []"
  by (simp add: main_events_def events_since_readPlugins map_filter_append map_filter_simps
      split: option.splits promise_state.splits)

subsection \<open>The init data listener\<close>

lemma onInitMessage_initialized:
  "onInitMessage ext msg w =
     (if sharedProcess w then hostMain ext (initialized msg w) else initialized msg w)"
  by (simp add: onInitMessage_def initialized_def Let_def setInterval_def emit_def)

lemma initialized_fields:
  "trace (initialized msg w) = trace w @ handshake_events msg"
  "onceMessage (initialized msg w) = onceMessage w"
  "onMessage (initialized msg w)"
  "onUnhandledRejection (initialized msg w)"
  "onUncaughtException (initialized msg w)"
  "intervals (initialized msg w) =
     intervals w @ [(ProbeParent (parentPid msg), 5000), (CheckStats, 1000)]"
  "initData (initialized msg w) = Some msg"
  "timeouts (initialized msg w) = timeouts w"
  "exited (initialized msg w) = exited w"
  "sharedProcess (initialized msg w) = sharedProcess w"
  by (simp_all add: initialized_def handshake_events_def setInterval_def emit_def)

subsection \<open>Inputs and the wiring of messages\<close>

lemma handled_emit:
  "handled (emit e w) = handled w @ (case dispatched e of None \<Rightarrow> [] | Some m \<Rightarrow> [m])"
  by (simp add: handled_def map_filter_append map_filter_simps split: option.splits)

lemma same_wiring_refl [simp]: "same_wiring w w"
  by (simp add: same_wiring_def)

lemma same_wiring_trans: "same_wiring w w' \<Longrightarrow> same_wiring w' w'' \<Longrightarrow> same_wiring w w''"
  by (simp add: same_wiring_def)

lemma same_wiring_hostMain: "same_wiring w (hostMain ext w)"
  using same_process_hostMain [of w ext]
  by (simp add: same_wiring_def same_process_def handled_def trace_hostMain map_filter_append)

lemma same_wiring_run_timer: "same_wiring w (run_timer a throws w)"
  by (cases a)
    (simp_all add: same_wiring_def run_timer_def process_exit_def emit_def handled_def
      map_filter_append map_filter_simps Let_def)

lemma same_wiring_testCallback: "same_wiring w (testCallback error w)"
  by (simp add: same_wiring_def testCallback_def setTimeout_def emit_def handled_def
      map_filter_append map_filter_simps Let_def split: option.splits)

lemma same_wiring_timeouts [simp]: "same_wiring (w\<lparr>timeouts := ts\<rparr>) w' = same_wiring w w'"
  by (simp add: same_wiring_def handled_def)

lemma same_wiring_deliver:
  assumes "\<And>msg. i \<noteq> Message msg"
  shows "same_wiring w (deliver ext i w)"
proof (cases "exited w")
  case True
  then show ?thesis by (simp add: deliver_def)
next
  case False
  show ?thesis
  proof (cases i)
    case (Message msg)
    with assms [of msg] show ?thesis by simp
  next
    case (IpcSend data)
    with False show ?thesis
      by (simp add: deliver_def same_wiring_def emit_def handled_def map_filter_append
          map_filter_simps)
  next
    case (UnhandledRejection reason)
    with False show ?thesis
      by (simp add: deliver_def same_wiring_def emit_def handled_def map_filter_append
          map_filter_simps)
  next
    case (UncaughtException err)
    with False show ?thesis
      by (simp add: deliver_def same_wiring_def emit_def handled_def map_filter_append
          map_filter_simps)
  next
    case (IntervalFires n throws)
    with False show ?thesis
      by (simp add: deliver_def same_wiring_run_timer)
  next
    case (TimeoutFires n)
    have "same_wiring w
            (run_timer a False (w\<lparr>timeouts := ts\<rparr>))" for a ts
      using same_wiring_run_timer [of "w\<lparr>timeouts := ts\<rparr>" a False] by simp
    with False TimeoutFires show ?thesis
      by (simp add: deliver_def)
  next
    case (ActivationSettled activationEvent outcome)
    with False show ?thesis
      by (simp add: deliver_def same_wiring_def emit_def handled_def map_filter_append
          map_filter_simps Let_def split: option.splits)
  next
    case (TestRunnerCallback error)
    with False show ?thesis
      by (simp add: deliver_def same_wiring_testCallback)
  next
    case SharedProcessConnected
    have "same_wiring w (hostMain ext (w\<lparr>sharedProcess := True\<rparr>))"
      using same_wiring_hostMain [of "w\<lparr>sharedProcess := True\<rparr>" ext]
      by (simp add: same_wiring_def handled_def)
    with False SharedProcessConnected show ?thesis
      by (simp add: deliver_def Let_def same_wiring_def handled_def)
  qed
qed

lemma deliver_init_message:
  assumes "awaiting w" and "\<not> exited w"
  shows "wired (deliver ext (Message msg) w) \<and> initData (deliver ext (Message msg) w) = Some msg
         \<and> handled (deliver ext (Message msg) w) = handled w"
proof -
  let ?v = "initialized msg (w\<lparr>onceMessage := False\<rparr>)"
  have v: "wired ?v \<and> initData ?v = Some msg \<and> handled ?v = handled w"
    by (simp add: initialized_fields wired_def handled_def handshake_events_def
        map_filter_append map_filter_simps)
  have d: "deliver ext (Message msg) w = (if sharedProcess w then hostMain ext ?v else ?v)"
    using assms by (simp add: deliver_def awaiting_def Let_def onInitMessage_initialized)
  show ?thesis
  proof (cases "sharedProcess w")
    case True
    with d v same_wiring_hostMain [of ?v ext] show ?thesis
      by (simp add: same_wiring_def wired_def)
  next
    case False
    with d v show ?thesis by simp
  qed
qed

lemma deliver_later_message:
  assumes "wired w" and "\<not> exited w"
  shows "deliver ext (Message msg) w = emit (RemoteComHandle msg) w"
  using assms by (simp add: deliver_def wired_def Let_def)

lemma run_Cons [simp]: "run ext (i # inputs) w = run ext inputs (deliver ext i w)"
  by (simp add: run_def)

lemma run_Nil [simp]: "run ext [] w = w"
  by (simp add: run_def)

lemma deliver_exited: "exited w \<Longrightarrow> deliver ext i w = w"
  by (simp add: deliver_def)

lemma wired_run:
  assumes "wired w"
  shows "wired (run ext inputs w) \<and> initData (run ext inputs w) = initData w
         \<and> handled (run ext inputs w) = handled w @ received ext inputs w"
  using assms
proof (induction inputs arbitrary: w)
  case Nil
  then show ?case by simp
next
  case (Cons i inputs)
  show ?case
  proof (cases "exited w")
    case True
    then have "deliver ext i w = w"
      by (rule deliver_exited)
    with Cons True show ?thesis
      by (simp split: input.splits)
  next
    case False
    show ?thesis
    proof (cases "\<exists>msg. i = Message msg")
      case True
      then obtain msg where i: "i = Message msg" ..
      have d: "deliver ext i w = emit (RemoteComHandle msg) w"
        unfolding i by (rule deliver_later_message [OF Cons.prems False])
      have w': "wired (deliver ext i w)" "initData (deliver ext i w) = initData w"
        "handled (deliver ext i w) = handled w @ [msg]"
        using Cons.prems by (simp_all add: d wired_def emit_def handled_emit [unfolded emit_def])
      from Cons.IH [OF w'(1)] w'(2,3) False show ?thesis
        by (simp add: i)
    next
      case no: False
      then have "same_wiring w (deliver ext i w)"
        by (intro same_wiring_deliver) auto
      then have w': "wired (deliver ext i w)" "initData (deliver ext i w) = initData w"
        "handled (deliver ext i w) = handled w"
        using Cons.prems by (simp_all add: same_wiring_def wired_def)
      from Cons.IH [OF w'(1)] w'(2,3) no show ?thesis
        by (cases i) simp_all
    qed
  qed
qed

lemma awaiting_run:
  assumes "awaiting w"
  shows "initData (run ext inputs w) =
           (case received ext inputs w of [] \<Rightarrow> None | msg # later \<Rightarrow> Some msg)
         \<and> handled (run ext inputs w) = handled w @ tl (received ext inputs w)"
  using assms
proof (induction inputs arbitrary: w)
  case Nil
  then show ?case by (simp add: awaiting_def)
next
  case (Cons i inputs)
  show ?case
  proof (cases "exited w")
    case True
    then have "deliver ext i w = w"
      by (rule deliver_exited)
    with Cons True show ?thesis
      by (simp split: input.splits)
  next
    case False
    show ?thesis
    proof (cases "\<exists>msg. i = Message msg")
      case True
      then obtain msg where i: "i = Message msg" ..
      from deliver_init_message [OF Cons.prems False, of ext msg]
      have w': "wired (deliver ext i w)" "initData (deliver ext i w) = Some msg"
        "handled (deliver ext i w) = handled w"
        by (simp_all add: i)
      from wired_run [OF w'(1), of ext inputs] w'(2,3) False show ?thesis
        by (simp add: i)
    next
      case no: False
      then have "same_wiring w (deliver ext i w)"
        by (intro same_wiring_deliver) auto
      then have w': "awaiting (deliver ext i w)" "handled (deliver ext i w) = handled w"
        using Cons.prems by (simp_all add: same_wiring_def awaiting_def)
      from Cons.IH [OF w'(1)] w'(2) no show ?thesis
        by (cases i) simp_all
    qed
  qed
qed

subsection \<open>The handshake\<close>

lemma pluginHostProcess_fields:
  "trace pluginHostProcess = [ProcessOnce ''message'', ProcessSend ''ready'']"
  "initData pluginHostProcess = None"
  "onceMessage pluginHostProcess"
  "\<not> onMessage pluginHostProcess"
  "\<not> sharedProcess pluginHostProcess"
  "\<not> exited pluginHostProcess"
  "intervals pluginHostProcess = []"
  "timeouts pluginHostProcess = []"
  by (simp_all add: pluginHostProcess_def connectToRenderer_def boot_def emit_def)

lemma first_message:
  "deliver ext (Message msg) pluginHostProcess =
     initialized msg (pluginHostProcess\<lparr>onceMessage := False\<rparr>)"
  by (simp add: deliver_def Let_def pluginHostProcess_fields onInitMessage_initialized)

lemma later_messages:
  assumes "wired w" and "\<not> exited w"
  shows "trace (run ext (map Message later) w) = trace w @ map RemoteComHandle later"
  using assms
proof (induction later arbitrary: w)
  case Nil
  then show ?case by simp
next
  case (Cons msg later)
  have d: "deliver ext (Message msg) w = emit (RemoteComHandle msg) w"
    by (rule deliver_later_message [OF Cons.prems])
  have "wired (emit (RemoteComHandle msg) w)" and "\<not> exited (emit (RemoteComHandle msg) w)"
    using Cons.prems by (simp_all add: wired_def emit_def)
  from Cons.IH [OF this] show ?case
    by (simp add: d)
qed

text \<open>
  C5.  \<^verbatim>\<open>connectToRenderer\<close> installs the one-time listener and sends \<^verbatim>\<open>ready\<close>
  with no init data consumed.  Of a sequence of parent messages the first is the init
  data: on it the process installs the message listener that dispatches, the error
  listeners and the two intervals, and only then sends \<^verbatim>\<open>initialized\<close>; each later
  message is dispatched, in order.  Under any inputs, the init data are the first
  message that reaches the live process, and the dispatched messages are exactly the
  later ones.
\<close>

theorem handshake_order:
  "trace pluginHostProcess = [ProcessOnce ''message'', ProcessSend ''ready'']
   \<and> initData pluginHostProcess = None
   \<and> trace (run ext (map Message (msg # later)) pluginHostProcess) =
       [ProcessOnce ''message'', ProcessSend ''ready'',
        ProcessOn ''message'', ProcessOn ''unhandledRejection'', ProcessOn ''uncaughtException'',
        SetInterval (ProbeParent (parentPid msg)) 5000, SetInterval CheckStats 1000,
        ProcessSend ''initialized'']
       @ map RemoteComHandle later
   \<and> initData (run ext inputs pluginHostProcess) =
       (case received ext inputs pluginHostProcess of [] \<Rightarrow> None | first # rest \<Rightarrow> Some first)
   \<and> List.map_filter dispatched (trace (run ext inputs pluginHostProcess)) =
       tl (received ext inputs pluginHostProcess)"
proof -
  let ?v = "initialized msg (pluginHostProcess\<lparr>onceMessage := False\<rparr>)"
  have v: "wired ?v" "\<not> exited ?v"
    "trace ?v = [ProcessOnce ''message'', ProcessSend ''ready''] @ handshake_events msg"
    by (simp_all add: wired_def initialized_fields pluginHostProcess_fields)
  have msgs: "trace (run ext (map Message (msg # later)) pluginHostProcess) =
       [ProcessOnce ''message'', ProcessSend ''ready''] @ handshake_events msg
       @ map RemoteComHandle later"
    using later_messages [OF v(1,2), of ext later] by (simp add: first_message v(3))
  have a: "awaiting pluginHostProcess"
    by (simp add: awaiting_def pluginHostProcess_fields)
  have h: "handled pluginHostProcess = []"
    by (simp add: handled_def pluginHostProcess_fields map_filter_simps)
  from awaiting_run [OF a, of ext inputs] h
  have any: "initData (run ext inputs pluginHostProcess) =
       (case received ext inputs pluginHostProcess of [] \<Rightarrow> None | first # rest \<Rightarrow> Some first)"
    "List.map_filter dispatched (trace (run ext inputs pluginHostProcess)) =
       tl (received ext inputs pluginHostProcess)"
    by (simp_all add: handled_def)
  show ?thesis
    using msgs any by (simp add: pluginHostProcess_fields handshake_events_def)
qed

theorem handshake_order_witness:
  "trace (run (example_ext [] [] []) (map Message [test_init, test_init]) pluginHostProcess) =
       [ProcessOnce ''message'', ProcessSend ''ready'',
        ProcessOn ''message'', ProcessOn ''unhandledRejection'', ProcessOn ''uncaughtException'',
        SetInterval (ProbeParent 42) 5000, SetInterval CheckStats 1000,
        ProcessSend ''initialized'', RemoteComHandle test_init]"
  using handshake_order [where msg = test_init and ext = "example_ext [] [] []"
      and later = "[test_init]" and inputs = "[]"]
  by (simp add: test_init_def)

subsection \<open>Termination\<close>

lemma timeouts_hostMain:
  "\<exists>ts. timeouts (hostMain ext w) = timeouts w @ ts \<and> list_all (\<lambda>t. fst t = ExitProcess) ts"
proof (cases "initData w")
  case None
  then show ?thesis by (simp add: hostMain_def)
next
  case (Some d)
  let ?b = "before_tests ext (contextService d) w"
  have b: "timeouts ?b = timeouts w"
    using untouched_before_tests [of w ext "contextService d"] by (simp add: untouched_def)
  have t: "\<exists>ts. timeouts (snd (handlePluginTests ext (contextService d) ?b)) = timeouts ?b @ ts
              \<and> list_all (\<lambda>t. fst t = ExitProcess) ts"
    by (simp add: handlePluginTests_def Let_def setTimeout_def emit_def
        split: option.splits require_result.splits bool.splits)
  obtain p w' where r: "handlePluginTests ext (contextService d) ?b = (p, w')"
    by (metis surj_pair)
  have "timeouts (hostMain ext w) = timeouts w'"
    by (cases p) (simp_all add: hostMain_def Some start_def readPlugins_before_tests r emit_def)
  with t r b show ?thesis
    by simp
qed

lemma connected_hostMain:
  assumes "connected w"
  shows "connected (hostMain ext w)"
proof -
  obtain ts where ts: "timeouts (hostMain ext w) = timeouts w @ ts"
    "list_all (\<lambda>t. fst t = ExitProcess) ts"
    using timeouts_hostMain by blast
  with assms same_process_hostMain [of w ext] show ?thesis
    by (simp add: connected_def same_process_def)
qed

lemma exited_hostMain [simp]: "exited (hostMain ext w) = exited w"
  using same_process_hostMain [of w ext] by (simp add: same_process_def)

lemma connected_after_handshake:
  "connected (deliver ext (Message msg) pluginHostProcess)
   \<and> \<not> exited (deliver ext (Message msg) pluginHostProcess)"
  by (simp add: first_message connected_def initialized_fields pluginHostProcess_fields)

lemma connected_deliver:
  assumes c: "connected w" and alive: "\<not> exited w"
  shows "connected (deliver ext i w)
         \<and> (exited (deliver ext i w) \<longleftrightarrow>
              i = IntervalFires 0 True \<or> (\<exists>n<length (timeouts w). i = TimeoutFires n))"
proof (cases i)
  case (Message msg)
  with c alive show ?thesis
    by (simp add: deliver_def connected_def Let_def emit_def)
next
  case (IpcSend data)
  with c alive show ?thesis
    by (auto simp: deliver_def connected_def emit_def)
next
  case (UnhandledRejection reason)
  with c alive show ?thesis
    by (simp add: deliver_def connected_def emit_def)
next
  case (UncaughtException err)
  with c alive show ?thesis
    by (simp add: deliver_def connected_def emit_def)
next
  case (IntervalFires n throws)
  from c obtain d where d: "initData w = Some d"
    "intervals w = [(ProbeParent (parentPid d), 5000), (CheckStats, 1000)]"
    by (auto simp: connected_def)
  consider "n = 0" | "n = 1" | "n \<ge> 2"
    by linarith
  then show ?thesis
  proof cases
    case 1
    with c alive IntervalFires d show ?thesis
      by (simp add: deliver_def connected_def run_timer_def process_exit_def emit_def Let_def)
  next
    case 2
    with c alive IntervalFires d show ?thesis
      by (simp add: deliver_def connected_def run_timer_def emit_def Let_def)
  next
    case 3
    with c alive IntervalFires d show ?thesis
      by (simp add: deliver_def)
  qed
next
  case (TimeoutFires n)
  show ?thesis
  proof (cases "n < length (timeouts w)")
    case True
    from c have all: "list_all (\<lambda>t. fst t = ExitProcess) (timeouts w)"
      by (simp add: connected_def)
    with True have a: "fst (timeouts w ! n) = ExitProcess"
      by (simp add: list_all_length)
    have rest: "list_all (\<lambda>t. fst t = ExitProcess) (take n (timeouts w) @ drop (Suc n) (timeouts w))"
      using all by (auto simp: list_all_iff dest: in_set_takeD in_set_dropD)
    with c alive TimeoutFires True a show ?thesis
      by (simp add: deliver_def connected_def run_timer_def process_exit_def emit_def)
  next
    case False
    with c alive TimeoutFires show ?thesis
      by (simp add: deliver_def)
  qed
next
  case (ActivationSettled activationEvent outcome)
  with c alive show ?thesis
    by (simp add: deliver_def connected_def emit_def Let_def split: option.splits)
next
  case (TestRunnerCallback error)
  with c alive show ?thesis
    by (simp add: deliver_def connected_def testCallback_def setTimeout_def emit_def Let_def
        split: option.splits)
next
  case SharedProcessConnected
  have c': "connected (w\<lparr>sharedProcess := True\<rparr>)"
    using c by (simp add: connected_def)
  from c obtain d where "initData w = Some d"
    by (auto simp: connected_def)
  with connected_hostMain [OF c', of ext] c alive SharedProcessConnected show ?thesis
    by (simp add: deliver_def Let_def)
qed

lemma connected_run:
  assumes "connected w" and "\<not> exited w"
    and "\<forall>i \<in> set inputs. i \<noteq> IntervalFires 0 True \<and> (\<forall>n. i \<noteq> TimeoutFires n)"
  shows "connected (run ext inputs w) \<and> \<not> exited (run ext inputs w)"
  using assms
proof (induction inputs arbitrary: w)
  case Nil
  then show ?case by simp
next
  case (Cons i inputs)
  from connected_deliver [OF Cons.prems(1,2), of ext i] Cons.prems(3)
  have "connected (deliver ext i w)" and "\<not> exited (deliver ext i w)"
    by auto
  from Cons.IH [OF this] Cons.prems(3) show ?case
    by simp
qed

text \<open>
  C9.  After the handshake, while the process is alive: an input ends the process if
  and only if it is the liveness interval firing with a probe that throws, or a pending
  exit timeout firing; the state stays one of those after the handshake.  The probe is
  \<^verbatim>\<open>process.kill\<close> with signal 0 on the parent's process id, polled every 5000, and
  a probe that does not throw changes nothing else.  An uncaught exception and an
  unhandled rejection are reported through \<^verbatim>\<open>onUnexpectedError\<close> and end nothing; no
  sequence of inputs without a throwing probe and without a timeout firing ends the
  process.
\<close>

theorem exits_only_on_parent_death_or_shutdown:
  assumes c: "connected w" and alive: "\<not> exited w"
  shows "connected (deliver ext i w)
    \<and> (exited (deliver ext i w) \<longleftrightarrow>
          i = IntervalFires 0 True \<or> (\<exists>n<length (timeouts w). i = TimeoutFires n))
    \<and> (\<exists>d. initData w = Some d \<and> intervals w ! 0 = (ProbeParent (parentPid d), 5000)
          \<and> deliver ext (IntervalFires 0 False) w = emit (ProcessKill (parentPid d) 0) w
          \<and> deliver ext (IntervalFires 0 True) w
              = process_exit (emit (ProcessKill (parentPid d) 0) w))
    \<and> deliver ext (UncaughtException err) w = emit (OnUnexpectedError err) w
    \<and> deliver ext (UnhandledRejection reason) w
        = emit (OnUnexpectedError reason) (emit (ConsoleError ''unhandled rejected promise'') w)
    \<and> ((\<forall>i \<in> set inputs. i \<noteq> IntervalFires 0 True \<and> (\<forall>n. i \<noteq> TimeoutFires n))
        \<longrightarrow> connected (run ext inputs w) \<and> \<not> exited (run ext inputs w))"
proof -
  from c obtain d where d: "initData w = Some d"
    "intervals w = [(ProbeParent (parentPid d), 5000), (CheckStats, 1000)]"
    by (auto simp: connected_def)
  have probe: "initData w = Some d \<and> intervals w ! 0 = (ProbeParent (parentPid d), 5000)
          \<and> deliver ext (IntervalFires 0 False) w = emit (ProcessKill (parentPid d) 0) w
          \<and> deliver ext (IntervalFires 0 True) w
              = process_exit (emit (ProcessKill (parentPid d) 0) w)"
    using alive d by (simp add: deliver_def run_timer_def Let_def)
  have errors: "deliver ext (UncaughtException err) w = emit (OnUnexpectedError err) w"
    "deliver ext (UnhandledRejection reason) w
        = emit (OnUnexpectedError reason) (emit (ConsoleError ''unhandled rejected promise'') w)"
    using c alive by (simp_all add: deliver_def connected_def)
  show ?thesis
    using connected_deliver [OF c alive, of ext i] probe errors
      connected_run [OF c alive, of inputs ext]
    by blast
qed

theorem exits_only_on_parent_death_or_shutdown_witness:
  "\<not> exited (deliver (example_ext [] [] []) (UncaughtException ''boom'')
               (deliver (example_ext [] [] []) (Message test_init) pluginHostProcess))
   \<and> exited (deliver (example_ext [] [] []) (IntervalFires 0 True)
               (deliver (example_ext [] [] []) (Message test_init) pluginHostProcess))
   \<and> \<not> exited (run (example_ext [] [] [])
                 [UncaughtException ''boom'', UnhandledRejection ''late'', IntervalFires 0 False,
                  SharedProcessConnected]
                 (deliver (example_ext [] [] []) (Message test_init) pluginHostProcess))"
proof -
  let ?ext = "example_ext [] [] []"
  let ?w = "deliver ?ext (Message test_init) pluginHostProcess"
  let ?inputs = "[UncaughtException ''boom'', UnhandledRejection ''late'', IntervalFires 0 False,
                  SharedProcessConnected]"
  have c: "connected ?w" and alive: "\<not> exited ?w"
    using connected_after_handshake [of ?ext test_init] by simp_all
  have quiet: "\<forall>i \<in> set ?inputs. i \<noteq> IntervalFires 0 True \<and> (\<forall>n. i \<noteq> TimeoutFires n)"
    by simp
  from exits_only_on_parent_death_or_shutdown [OF c alive,
      where i = "UncaughtException ''boom''" and ext = ?ext and err = "''boom''"
        and reason = "''late''" and inputs = ?inputs]
  have 1: "\<not> exited (deliver ?ext (UncaughtException ''boom'') ?w)"
    by blast
  from exits_only_on_parent_death_or_shutdown [OF c alive,
      where i = "IntervalFires 0 True" and ext = ?ext and err = "''boom''"
        and reason = "''late''" and inputs = ?inputs]
  have 2: "exited (deliver ?ext (IntervalFires 0 True) ?w)"
    by blast
  from exits_only_on_parent_death_or_shutdown [OF c alive,
      where i = "IntervalFires 0 True" and ext = ?ext and err = "''boom''"
        and reason = "''late''" and inputs = ?inputs] quiet
  have 3: "\<not> exited (run ?ext ?inputs ?w)"
    by blast
  from 1 2 3 show ?thesis
    by blast
qed

end
